theory Spec2Isabelle
  imports Main
begin

section \<open>JavaScript conventions used by the sources\<close>

text \<open>
  A string is the list of its characters, read as ASCII text: on them the character
  classes, the case mappings and \<open>trim\<close> below are JavaScript's. A value of type
  \<open>string | undefined\<close> is a \<open>string option\<close> (\<open>None\<close> is \<open>undefined\<close> or SQL \<open>NULL\<close>), a
  value of type \<open>number | undefined\<close> is a \<open>nat option\<close>: every number the sources handle
  is a \<open>serial\<close> key of the database, which starts at 1.
\<close>

datatype js_error = TypeError

text \<open>The regular expression class \<open>\d\<close>; \<open>\D\<close> is its complement.\<close>

definition is_digit :: "char \<Rightarrow> bool" where
  "is_digit c = (c \<in> set ''0123456789'')"

text \<open>\<open>s.replace(/\D/g, "")\<close>\<close>

definition strip_non_digits :: "string \<Rightarrow> string" where
  "strip_non_digits p = filter is_digit p"

text \<open>JavaScript truthiness of an optional string and of an optional number.\<close>

definition truthy :: "string option \<Rightarrow> bool" where
  "truthy v = (case v of None \<Rightarrow> False | Some x \<Rightarrow> x \<noteq> [])"

definition truthy_num :: "nat option \<Rightarrow> bool" where
  "truthy_num v = (case v of None \<Rightarrow> False | Some n \<Rightarrow> n \<noteq> 0)"

text \<open>\<open>v || undefined\<close>\<close>

definition or_undefined :: "string option \<Rightarrow> string option" where
  "or_undefined v = (if truthy v then v else None)"

text \<open>\<open>a || b\<close> on optional strings\<close>

definition or_else :: "string option \<Rightarrow> string option \<Rightarrow> string option" where
  "or_else a b = (if truthy a then a else b)"

text \<open>Decimal rendering of a number inside a template literal.\<close>

function show_nat :: "nat \<Rightarrow> string" where
  "show_nat n =
     (if n < 10 then [''0123456789'' ! n]
      else show_nat (n div 10) @ [''0123456789'' ! (n mod 10)])"
  by pat_completeness auto
termination
  by (relation "measure id") auto

declare show_nat.simps [simp del]

text \<open>A template literal's rendering of an optional string and an optional number.\<close>

definition show_str :: "string option \<Rightarrow> string" where
  "show_str v = (case v of None \<Rightarrow> ''undefined'' | Some x \<Rightarrow> x)"

definition show_num :: "nat option \<Rightarrow> string" where
  "show_num v = (case v of None \<Rightarrow> ''undefined'' | Some n \<Rightarrow> show_nat n)"

text \<open>\<open>xs.join(sep)\<close>\<close>

fun join :: "string \<Rightarrow> string list \<Rightarrow> string" where
  "join sep [] = []"
| "join sep [x] = x"
| "join sep (x # y # ys) = x @ sep @ join sep (y # ys)"

text \<open>\<open>t\<close> occurs in \<open>s\<close> as a contiguous piece.\<close>

definition contains :: "string \<Rightarrow> string \<Rightarrow> bool" where
  "contains s t = (\<exists>pre post. s = pre @ t @ post)"

section \<open>Data model (shared/schema.ts)\<close>

text \<open>
  The rows of the tables \<open>users\<close>, \<open>appointments\<close> and \<open>call_sessions\<close>. The time
  stamps \<open>createdAt\<close> and \<open>endedAt\<close> are left out: a table is the list of its rows in
  the order they were inserted, which is the order of \<open>createdAt\<close>. The two JSON texts a
  session stores (\<open>bookedAppointments\<close>, \<open>userPreferences\<close>) are kept as the values
  \<open>JSON.stringify\<close> is applied to.
\<close>

record user =
  user_id :: nat
  user_phoneNumber :: string
  user_name :: "string option"

record appointment =
  appt_id :: nat
  appt_userId :: nat
  appt_date :: string
  appt_time :: string
  appt_description :: "string option"
  appt_status :: string

record appt_view =
  view_id :: nat
  view_date :: string
  view_time :: string
  view_description :: "string option"
  view_status :: string

record callSession =
  cs_id :: nat
  cs_userId :: "nat option"
  cs_phoneNumber :: "string option"
  cs_status :: string
  cs_transcript :: "string option"
  cs_summary :: "string option"
  cs_bookedAppointments :: "appt_view list option"
  cs_userPreferences :: "string list option"

text \<open>The slot catalog \<open>availableSlots\<close>.\<close>

definition availableSlots :: "(string \<times> string) list" where
  "availableSlots =
    [(''2026-01-28'', ''09:00 AM''), (''2026-01-28'', ''10:00 AM''),
     (''2026-01-28'', ''02:00 PM''), (''2026-01-28'', ''03:00 PM''),
     (''2026-01-29'', ''09:00 AM''), (''2026-01-29'', ''11:00 AM''),
     (''2026-01-29'', ''01:00 PM''), (''2026-01-29'', ''04:00 PM''),
     (''2026-01-30'', ''10:00 AM''), (''2026-01-30'', ''02:00 PM''),
     (''2026-01-30'', ''03:30 PM''), (''2026-01-31'', ''09:00 AM''),
     (''2026-01-31'', ''11:30 AM''), (''2026-01-31'', ''02:00 PM''),
     (''2026-02-01'', ''10:00 AM''), (''2026-02-01'', ''01:00 PM''),
     (''2026-02-01'', ''03:00 PM'')]"

section \<open>The booking store (server/storage.ts)\<close>

text \<open>
  The database is a record of its tables and of the next value of the two \<open>serial\<close>
  sequences the sources draw from. Every operation of \<open>DatabaseStorage\<close> takes the
  store and, when it writes, returns the new one. The operations are the ones that
  succeed: a rejected query is outside this model.
\<close>

record store =
  users :: "user list"
  appointments :: "appointment list"
  callSessions :: "callSession list"
  nextUserId :: nat
  nextAppointmentId :: nat

definition getUser :: "store \<Rightarrow> nat \<Rightarrow> user option" where
  "getUser s i = List.find (\<lambda>u. user_id u = i) (users s)"

definition getUserByPhoneNumber :: "store \<Rightarrow> string \<Rightarrow> user option" where
  "getUserByPhoneNumber s p = List.find (\<lambda>u. user_phoneNumber u = p) (users s)"

definition createUser :: "string \<Rightarrow> string option \<Rightarrow> store \<Rightarrow> user \<times> store" where
  "createUser phone nm s =
     (let u = \<lparr>user_id = nextUserId s, user_phoneNumber = phone, user_name = nm\<rparr>
      in (u, s\<lparr>users := users s @ [u], nextUserId := Suc (nextUserId s)\<rparr>))"

text \<open>\<open>updateUser(id, { name })\<close>: the only patch the sources ever pass.\<close>

definition updateUser :: "nat \<Rightarrow> string \<Rightarrow> store \<Rightarrow> store" where
  "updateUser i nm s =
     s\<lparr>users := map (\<lambda>u. if user_id u = i then u\<lparr>user_name := Some nm\<rparr> else u) (users s)\<rparr>"

text \<open>
  The tool executor passes \<open>args.appointment_id\<close>, which is \<open>undefined\<close> when the
  argument is missing, as the key of a row: the key is a \<open>nat option\<close>, and no row has
  the key \<open>None\<close>.
\<close>

definition getAppointment :: "store \<Rightarrow> nat option \<Rightarrow> appointment option" where
  "getAppointment s i = List.find (\<lambda>a. Some (appt_id a) = i) (appointments s)"

text \<open>Ordered by \<open>desc(createdAt)\<close>: the newest row first.\<close>

definition getAppointmentsByUser :: "store \<Rightarrow> nat \<Rightarrow> appointment list" where
  "getAppointmentsByUser s uid = rev (filter (\<lambda>a. appt_userId a = uid) (appointments s))"

definition createAppointment ::
  "nat \<Rightarrow> string \<Rightarrow> string \<Rightarrow> string option \<Rightarrow> string \<Rightarrow> store \<Rightarrow> appointment \<times> store" where
  "createAppointment uid d t descr st s =
     (let a = \<lparr>appt_id = nextAppointmentId s, appt_userId = uid, appt_date = d,
                appt_time = t, appt_description = descr, appt_status = st\<rparr>
      in (a, s\<lparr>appointments := appointments s @ [a],
               nextAppointmentId := Suc (nextAppointmentId s)\<rparr>))"

text \<open>A patch \<open>Partial<InsertAppointment>\<close> with the fields the sources set.\<close>

record appt_patch =
  patch_date :: "string option"
  patch_time :: "string option"
  patch_status :: "string option"

definition apply_patch :: "appt_patch \<Rightarrow> appointment \<Rightarrow> appointment" where
  "apply_patch p a =
     a\<lparr>appt_date := (case patch_date p of None \<Rightarrow> appt_date a | Some d \<Rightarrow> d),
       appt_time := (case patch_time p of None \<Rightarrow> appt_time a | Some t \<Rightarrow> t),
       appt_status := (case patch_status p of None \<Rightarrow> appt_status a | Some st \<Rightarrow> st)\<rparr>"

definition updateAppointment :: "nat option \<Rightarrow> appt_patch \<Rightarrow> store \<Rightarrow> store" where
  "updateAppointment i p s =
     s\<lparr>appointments :=
         map (\<lambda>a. if Some (appt_id a) = i then apply_patch p a else a) (appointments s)\<rparr>"

text \<open>The row \<open>returning()\<close> gives back, and the store after the update.\<close>

definition cancelAppointment :: "nat option \<Rightarrow> store \<Rightarrow> appointment option \<times> store" where
  "cancelAppointment i s =
     (let s' = s\<lparr>appointments :=
                  map (\<lambda>a. if Some (appt_id a) = i then a\<lparr>appt_status := ''cancelled''\<rparr> else a)
                    (appointments s)\<rparr>
      in (getAppointment s' i, s'))"

definition getBookedSlots :: "store \<Rightarrow> (string \<times> string) list" where
  "getBookedSlots s =
     map (\<lambda>a. (appt_date a, appt_time a))
       (filter (\<lambda>a. appt_status a \<noteq> ''cancelled'') (appointments s))"

definition getCallSession :: "store \<Rightarrow> nat \<Rightarrow> callSession option" where
  "getCallSession s i = List.find (\<lambda>c. cs_id c = i) (callSessions s)"

text \<open>\<open>updateCallSession(id, { userId, phoneNumber })\<close>\<close>

definition updateCallSession :: "nat \<Rightarrow> nat \<Rightarrow> string \<Rightarrow> store \<Rightarrow> store" where
  "updateCallSession i uid phone s =
     s\<lparr>callSessions :=
         map (\<lambda>c. if cs_id c = i then c\<lparr>cs_userId := Some uid, cs_phoneNumber := Some phone\<rparr> else c)
           (callSessions s)\<rparr>"

text \<open>
  \<open>endCallSession\<close>: the query builder leaves a column alone whose value in \<open>set\<close> is
  \<open>undefined\<close>, which only \<open>transcript\<close> can be at the call sites.
\<close>

definition endCallSession ::
  "nat \<Rightarrow> string \<Rightarrow> appt_view list \<Rightarrow> string list \<Rightarrow> string option \<Rightarrow> store \<Rightarrow> store" where
  "endCallSession i summ booked prefs transcript s =
     s\<lparr>callSessions :=
         map (\<lambda>c. if cs_id c = i
                  then c\<lparr>cs_status := ''ended'', cs_summary := Some summ,
                         cs_bookedAppointments := Some booked,
                         cs_userPreferences := Some prefs,
                         cs_transcript := (case transcript of None \<Rightarrow> cs_transcript c
                                           | Some t \<Rightarrow> Some t)\<rparr>
                  else c)
           (callSessions s)\<rparr>"

section \<open>The tool executor (server/voiceAgent.ts, executeToolCall)\<close>

text \<open>
  \<open>ConversationContext\<close>, the argument bag with the fields the executor reads, each at
  the type the source casts it to (a missing argument is \<open>None\<close>), and the value
  \<open>executeToolCall\<close> returns. A call either returns or throws; in both cases the store
  is the one the call leaves behind.
\<close>

record conversationContext =
  ctx_sessionId :: nat
  ctx_userId :: "nat option"
  ctx_phoneNumber :: "string option"
  ctx_userName :: "string option"
  ctx_messages :: "(string \<times> string) list"

record tool_args =
  arg_phone_number :: "string option"
  arg_date :: "string option"
  arg_time :: "string option"
  arg_description :: "string option"
  arg_appointment_id :: "nat option"
  arg_new_date :: "string option"
  arg_new_time :: "string option"

record tool_result =
  tr_result :: string
  tr_context :: conversationContext
  tr_endCall :: bool

definition returns :: "string \<Rightarrow> conversationContext \<Rightarrow> store \<Rightarrow> (js_error + tool_result) \<times> store" where
  "returns txt ctx s = (Inr \<lparr>tr_result = txt, tr_context = ctx, tr_endCall = False\<rparr>, s)"

definition is_active :: "appointment \<Rightarrow> bool" where
  "is_active a = (appt_status a \<noteq> ''cancelled'')"

subsection \<open>identify_user\<close>

definition too_many_digits_text :: "string \<Rightarrow> string" where
  "too_many_digits_text phoneNumber =
     ''I heard '' @ phoneNumber @
     '', but that seems to have more than 10 digits. Could you please repeat your phone number slowly?''"

definition too_few_digits_text :: "string \<Rightarrow> string" where
  "too_few_digits_text phoneNumber =
     ''I heard '' @ phoneNumber @
     '', but that seems to have fewer than 10 digits. Could you please repeat your complete phone number?''"

definition formatPhone :: "string \<Rightarrow> string" where
  "formatPhone d = take 3 d @ ''-'' @ take 3 (drop 3 d) @ ''-'' @ drop 6 d"

definition appointmentInfo :: "appointment list \<Rightarrow> string" where
  "appointmentInfo active =
     (if length active = 0 then ''You don't have any appointments scheduled.''
      else ''You have '' @ show_nat (length active) @ '' appointment'' @
           (if length active > 1 then ''s'' else []) @ '': '' @
           join ''; '' (map (\<lambda>a. appt_date a @ '' at '' @ appt_time a @
                               (if truthy (appt_description a)
                                then '' for '' @ show_str (appt_description a) else []))
                          active) @ ''.'')"

definition tool_identify_user ::
  "tool_args \<Rightarrow> conversationContext \<Rightarrow> store \<Rightarrow> (js_error + tool_result) \<times> store" where
  "tool_identify_user args ctx s =
     (case arg_phone_number args of
        None \<Rightarrow> (Inl TypeError, s)
      | Some phoneNumber \<Rightarrow>
         (let digitsOnly = strip_non_digits phoneNumber in
          if length digitsOnly > 10 then returns (too_many_digits_text phoneNumber) ctx s
          else if length digitsOnly < 10 then returns (too_few_digits_text phoneNumber) ctx s
          else
            (let formattedPhone = formatPhone digitsOnly;
                 (u, txt, s1) =
                   (case getUserByPhoneNumber s digitsOnly of
                      None \<Rightarrow>
                        (let (u, s1) = createUser digitsOnly None s
                         in (u, ''Just to confirm, your phone number is '' @ formattedPhone @
                                ''. I've created a new account for you. You don't have any appointments scheduled yet. Would you like to book an appointment?'',
                             s1))
                    | Some u \<Rightarrow>
                        (let active = filter is_active (getAppointmentsByUser s (user_id u))
                         in (u, ''Just to confirm, your phone number is '' @ formattedPhone @
                                ''. Welcome back'' @
                                (if truthy (user_name u) then '' '' @ show_str (user_name u) else []) @
                                ''! '' @ appointmentInfo active @
                                '' Would you like to book a new appointment, or modify or cancel an existing one?'',
                             s)));
                 ctx' = ctx\<lparr>ctx_userId := Some (user_id u),
                            ctx_phoneNumber := Some digitsOnly,
                            ctx_userName := or_undefined (user_name u)\<rparr>
             in returns txt ctx' (updateCallSession (ctx_sessionId ctx) (user_id u) digitsOnly s1))))"

subsection \<open>fetch_slots\<close>

definition slot_key :: "string \<times> string \<Rightarrow> string" where
  "slot_key sl = fst sl @ ''-'' @ snd sl"

definition tool_fetch_slots ::
  "tool_args \<Rightarrow> conversationContext \<Rightarrow> store \<Rightarrow> (js_error + tool_result) \<times> store" where
  "tool_fetch_slots args ctx s =
     (let dateFilter = arg_date args;
          bookedSet = set (map slot_key (getBookedSlots s));
          available0 = filter (\<lambda>sl. slot_key sl \<notin> bookedSet) availableSlots;
          available = (if truthy dateFilter
                       then filter (\<lambda>sl. Some (fst sl) = dateFilter) available0
                       else available0)
      in if length available = 0
         then returns (if truthy dateFilter
                       then ''No available slots on '' @ show_str dateFilter @
                            ''. Would you like to check another date?''
                       else ''No available slots at the moment. Please check back later.'') ctx s
         else returns (''Available slots: '' @
                       join '', '' (map (\<lambda>sl. fst sl @ '' at '' @ snd sl) (take 5 available)) @
                       (if length available > 5
                        then '' and '' @ show_nat (length available - 5) @ '' more'' else []) @
                       ''.'') ctx s)"

subsection \<open>book_appointment\<close>

definition not_identified_book_text :: string where
  "not_identified_book_text =
     ''Please provide your phone number first so I can identify you before booking.''"

definition slot_taken_text :: "string option \<Rightarrow> string option \<Rightarrow> string" where
  "slot_taken_text d t =
     ''Sorry, the slot on '' @ show_str d @ '' at '' @ show_str t @
     '' is already booked. Would you like to pick another time?''"

definition not_a_slot_text :: "string option \<Rightarrow> string option \<Rightarrow> string" where
  "not_a_slot_text d t =
     ''Sorry, '' @ show_str d @ '' at '' @ show_str t @
     '' is not an available slot. Let me show you what's available.''"

definition booked_text :: "string \<Rightarrow> string \<Rightarrow> nat \<Rightarrow> string option \<Rightarrow> string" where
  "booked_text d t i descr =
     ''Appointment booked successfully for '' @ d @ '' at '' @ t @
     ''. Your appointment ID is '' @ show_nat i @ ''.'' @
     (if truthy descr then '' Description: '' @ show_str descr else [])"

text \<open>\<open>slots.some(s => s.date === date && s.time === time)\<close>\<close>

definition some_slot :: "string option \<Rightarrow> string option \<Rightarrow> (string \<times> string) list \<Rightarrow> bool" where
  "some_slot d t slots = list_ex (\<lambda>sl. Some (fst sl) = d \<and> Some (snd sl) = t) slots"

definition tool_book_appointment ::
  "tool_args \<Rightarrow> conversationContext \<Rightarrow> store \<Rightarrow> (js_error + tool_result) \<times> store" where
  "tool_book_appointment args ctx s =
     (case ctx_userId ctx of
        None \<Rightarrow> returns not_identified_book_text ctx s
      | Some uid \<Rightarrow>
         if uid = 0 then returns not_identified_book_text ctx s
         else
           (let date = arg_date args; time = arg_time args; description = arg_description args in
            if some_slot date time (getBookedSlots s) then returns (slot_taken_text date time) ctx s
            else if \<not> some_slot date time availableSlots then returns (not_a_slot_text date time) ctx s
            else
              (case (date, time) of
                 (Some d, Some t) \<Rightarrow>
                   (let (a, s1) = createAppointment uid d t description ''scheduled'' s
                    in returns (booked_text d t (appt_id a) description) ctx s1)
               | _ \<Rightarrow> returns (not_a_slot_text date time) ctx s)))"

subsection \<open>retrieve_appointments\<close>

definition tool_retrieve_appointments ::
  "tool_args \<Rightarrow> conversationContext \<Rightarrow> store \<Rightarrow> (js_error + tool_result) \<times> store" where
  "tool_retrieve_appointments args ctx s =
     (case ctx_userId ctx of
        None \<Rightarrow> returns ''Please provide your phone number first so I can look up your appointments.'' ctx s
      | Some uid \<Rightarrow>
         if uid = 0
         then returns ''Please provide your phone number first so I can look up your appointments.'' ctx s
         else
           (let active = filter is_active (getAppointmentsByUser s uid) in
            if length active = 0 then returns ''You don't have any appointments scheduled.'' ctx s
            else returns (''Your appointments: '' @
                   join ''; '' (map (\<lambda>a. ''ID '' @ show_nat (appt_id a) @ '': '' @ appt_date a @
                                         '' at '' @ appt_time a @ '' ('' @ appt_status a @ '')'' @
                                         (if truthy (appt_description a)
                                          then '' - '' @ show_str (appt_description a) else []))
                                  active)) ctx s))"

subsection \<open>cancel_appointment\<close>

definition already_cancelled_text :: string where
  "already_cancelled_text = ''This appointment is already cancelled.''"

definition tool_cancel_appointment ::
  "tool_args \<Rightarrow> conversationContext \<Rightarrow> store \<Rightarrow> (js_error + tool_result) \<times> store" where
  "tool_cancel_appointment args ctx s =
     (if \<not> truthy_num (ctx_userId ctx) then returns ''Please provide your phone number first.'' ctx s
      else
        (let appointmentId = arg_appointment_id args in
         case getAppointment s appointmentId of
           None \<Rightarrow> returns (''Appointment '' @ show_num appointmentId @ '' not found.'') ctx s
         | Some a \<Rightarrow>
            if Some (appt_userId a) \<noteq> ctx_userId ctx
            then returns ''You can only cancel your own appointments.'' ctx s
            else if appt_status a = ''cancelled'' then returns already_cancelled_text ctx s
            else returns (''Appointment '' @ show_num appointmentId @ '' on '' @ appt_date a @
                          '' at '' @ appt_time a @ '' has been cancelled.'')
                   ctx (snd (cancelAppointment appointmentId s))))"

subsection \<open>modify_appointment\<close>

text \<open>\<open>v || d\<close> with a string default\<close>

definition or_default :: "string option \<Rightarrow> string \<Rightarrow> string" where
  "or_default v d = (case v of None \<Rightarrow> d | Some x \<Rightarrow> if x \<noteq> [] then x else d)"

definition conflict_text :: "string \<Rightarrow> string \<Rightarrow> string" where
  "conflict_text d t = ''Sorry, '' @ d @ '' at '' @ t @ '' is already booked.''"

definition rescheduled_text :: "nat option \<Rightarrow> string \<Rightarrow> string \<Rightarrow> string" where
  "rescheduled_text i d t =
     ''Appointment '' @ show_num i @ '' has been rescheduled to '' @ d @ '' at '' @ t @ ''.''"

definition tool_modify_appointment ::
  "tool_args \<Rightarrow> conversationContext \<Rightarrow> store \<Rightarrow> (js_error + tool_result) \<times> store" where
  "tool_modify_appointment args ctx s =
     (if \<not> truthy_num (ctx_userId ctx) then returns ''Please provide your phone number first.'' ctx s
      else
        (let appointmentId = arg_appointment_id args;
             newDate = arg_new_date args;
             newTime = arg_new_time args in
         if \<not> truthy newDate \<and> \<not> truthy newTime
         then returns ''Please specify what you'd like to change - the date, time, or both.'' ctx s
         else
           (case getAppointment s appointmentId of
              None \<Rightarrow> returns (''Appointment '' @ show_num appointmentId @ '' not found.'') ctx s
            | Some a \<Rightarrow>
               if Some (appt_userId a) \<noteq> ctx_userId ctx
               then returns ''You can only modify your own appointments.'' ctx s
               else
                 (let targetDate = or_default newDate (appt_date a);
                      targetTime = or_default newTime (appt_time a);
                      isSlotTaken =
                        list_ex (\<lambda>sl. fst sl = targetDate \<and> snd sl = targetTime \<and>
                                      \<not> (fst sl = appt_date a \<and> snd sl = appt_time a))
                          (getBookedSlots s) in
                  if isSlotTaken then returns (conflict_text targetDate targetTime) ctx s
                  else returns (rescheduled_text appointmentId targetDate targetTime) ctx
                         (updateAppointment appointmentId
                            \<lparr>patch_date = Some targetDate, patch_time = Some targetTime,
                             patch_status = Some ''scheduled''\<rparr> s)))))"

subsection \<open>The dispatch\<close>

definition executeToolCall ::
  "string \<Rightarrow> tool_args \<Rightarrow> conversationContext \<Rightarrow> store \<Rightarrow> (js_error + tool_result) \<times> store" where
  "executeToolCall toolName args ctx s =
     (if toolName = ''identify_user'' then tool_identify_user args ctx s
      else if toolName = ''fetch_slots'' then tool_fetch_slots args ctx s
      else if toolName = ''book_appointment'' then tool_book_appointment args ctx s
      else if toolName = ''retrieve_appointments'' then tool_retrieve_appointments args ctx s
      else if toolName = ''cancel_appointment'' then tool_cancel_appointment args ctx s
      else if toolName = ''modify_appointment'' then tool_modify_appointment args ctx s
      else if toolName = ''end_conversation''
      then (Inr \<lparr>tr_result = ''Goodbye! Thank you for using our scheduling service.'',
                 tr_context = ctx, tr_endCall = True\<rparr>, s)
      else returns (''Unknown tool: '' @ toolName) ctx s)"

section \<open>The call summarizer (server/voiceAgent.ts, generateCallSummary)\<close>

subsection \<open>normalizeTime\<close>

text \<open>The regular expression class \<open>\s\<close>, which is also what \<open>trim\<close> strips.\<close>

definition is_space :: "char \<Rightarrow> bool" where
  "is_space c = (c \<in> set [CHR 0x09, CHR 0x0A, CHR 0x0B, CHR 0x0C, CHR 0x0D, CHR '' ''])"

definition trim :: "string \<Rightarrow> string" where
  "trim t = rev (dropWhile is_space (rev (dropWhile is_space t)))"

definition to_lower :: "char \<Rightarrow> char" where
  "to_lower c =
     (case map_of (zip ''ABCDEFGHIJKLMNOPQRSTUVWXYZ'' ''abcdefghijklmnopqrstuvwxyz'') c of
        None \<Rightarrow> c | Some l \<Rightarrow> l)"

definition to_upper :: "char \<Rightarrow> char" where
  "to_upper c =
     (case map_of (zip ''abcdefghijklmnopqrstuvwxyz'' ''ABCDEFGHIJKLMNOPQRSTUVWXYZ'') c of
        None \<Rightarrow> c | Some u \<Rightarrow> u)"

text \<open>
  \<open>time.match(/^(\d{1,2}):(\d{2})\s*(AM|PM|am|pm)?$/i)\<close>: the three groups of a match
  (the third is empty when the period is absent). The greedy \<open>\d{1,2}\<close> takes the
  longest run of at most two digits; a shorter one cannot match, since the next character
  would be a digit where the colon has to be. Likewise \<open>\s*\<close> takes all the white space.
\<close>

definition match_time :: "string \<Rightarrow> (string \<times> string \<times> string) option" where
  "match_time t =
     (let hour = takeWhile is_digit (take 2 t) in
      if hour = [] then None
      else
        (case drop (length hour) t of
           [] \<Rightarrow> None
         | c # r \<Rightarrow>
            if c = CHR '':'' \<and> 2 \<le> length r \<and> list_all is_digit (take 2 r)
            then
              (let period = dropWhile is_space (drop 2 r) in
               if period = [] \<or> map to_upper period = ''AM'' \<or> map to_upper period = ''PM''
               then Some (hour, take 2 r, period)
               else None)
            else None))"

text \<open>\<open>h.padStart(2, '0')\<close>\<close>

definition padStart2 :: "string \<Rightarrow> string" where
  "padStart2 h = replicate (2 - length h) (CHR ''0'') @ h"

definition normalizeTime :: "string \<Rightarrow> string" where
  "normalizeTime t =
     (case match_time t of
        None \<Rightarrow> trim (map to_lower t)
      | Some (hour, mins, period) \<Rightarrow>
          trim (padStart2 hour @ '':'' @ mins @ '' '' @ map to_upper period))"

subsection \<open>The extraction\<close>

text \<open>
  The language model is outside the program: its answer is an input. The call either
  fails (the promise rejects, inside the \<open>try\<close> block), or answers a text
  \<open>JSON.parse\<close> rejects, or answers an object, whose fields are read at the types the
  prompt asks for; a field that is missing or \<open>null\<close> is \<open>None\<close>, a missing list is
  empty. An answer that parses to \<open>null\<close> makes the first field access throw before
  anything is written, which the outer \<open>catch\<close> handles like a failed call: \<open>LlmError\<close>
  stands for it too.
\<close>

record apptRequest =
  req_date :: "string option"
  req_time :: "string option"
  req_description :: "string option"

record cancelRequest =
  creq_date :: "string option"
  creq_time :: "string option"

record extractedData =
  ex_userName :: "string option"
  ex_phoneNumber :: "string option"
  ex_appointmentRequests :: "apptRequest list"
  ex_cancellationRequests :: "cancelRequest list"
  ex_summary :: "string option"
  ex_userPreferences :: "string list"

datatype llm_response = LlmError | Unparsable | Parsed extractedData

text \<open>What the inner \<open>catch\<close> puts in place of an answer that does not parse.\<close>

definition unparsable_default :: extractedData where
  "unparsable_default =
     \<lparr>ex_userName = None, ex_phoneNumber = None, ex_appointmentRequests = [],
      ex_cancellationRequests = [], ex_summary = Some ''Call completed.'',
      ex_userPreferences = []\<rparr>"

record summary_result =
  sr_summary :: string
  sr_appointments :: "appt_view list"
  sr_userPreferences :: "string list"
  sr_userName :: "string option"
  sr_phoneNumber :: "string option"
  sr_newAppointmentsCreated :: "nat option"

definition to_view :: "appointment \<Rightarrow> appt_view" where
  "to_view a =
     \<lparr>view_id = appt_id a, view_date = appt_date a, view_time = appt_time a,
      view_description = or_undefined (appt_description a), view_status = appt_status a\<rparr>"

definition user_views :: "user option \<Rightarrow> store \<Rightarrow> appt_view list" where
  "user_views user s =
     (case user of None \<Rightarrow> [] | Some u \<Rightarrow> map to_view (getAppointmentsByUser s (user_id u)))"

subsection \<open>User resolution\<close>

definition resolveUser ::
  "user option \<Rightarrow> string option \<Rightarrow> string option \<Rightarrow> store \<Rightarrow> user option \<times> store" where
  "resolveUser user extractedPhone extractedName s =
     (case user of
        None \<Rightarrow>
          (case extractedPhone of
             None \<Rightarrow> (None, s)
           | Some phone \<Rightarrow>
              if phone \<noteq> [] \<and> 10 \<le> length phone
              then
                (case getUserByPhoneNumber s phone of
                   Some existingUser \<Rightarrow>
                     (case extractedName of
                        None \<Rightarrow> (Some existingUser, s)
                      | Some nm \<Rightarrow>
                         if nm \<noteq> [] \<and> \<not> truthy (user_name existingUser)
                         then (Some (existingUser\<lparr>user_name := Some nm\<rparr>),
                               updateUser (user_id existingUser) nm s)
                         else (Some existingUser, s))
                 | None \<Rightarrow>
                     (let (u, s1) = createUser phone (or_undefined extractedName) s
                      in (Some u, s1)))
              else (None, s))
      | Some u \<Rightarrow>
          (case extractedName of
             None \<Rightarrow> (Some u, s)
           | Some nm \<Rightarrow>
              if nm \<noteq> [] \<and> \<not> truthy (user_name u)
              then (Some (u\<lparr>user_name := Some nm\<rparr>), updateUser (user_id u) nm s)
              else (Some u, s)))"

subsection \<open>Appointments from the extracted requests\<close>

definition default_description :: string where
  "default_description = ''Appointment booked via voice call''"

definition isDuplicate :: "string \<Rightarrow> string \<Rightarrow> appointment list \<Rightarrow> bool" where
  "isDuplicate d t existingAppts =
     list_ex (\<lambda>a. appt_date a = d \<and> normalizeTime (appt_time a) = normalizeTime t \<and>
                   appt_status a \<noteq> ''cancelled'') existingAppts"

text \<open>
  The \<open>for\<close> loop over \<open>appointmentRequests\<close>: the user's id, the requests left, the
  list \<open>existingAppts\<close>, the counter \<open>newAppointmentsCreated\<close> and the store.
\<close>

fun createRequested ::
  "nat \<Rightarrow> apptRequest list \<Rightarrow> appointment list \<Rightarrow> nat \<Rightarrow> store \<Rightarrow>
   appointment list \<times> nat \<times> store" where
  "createRequested uid [] existingAppts n s = (existingAppts, n, s)"
| "createRequested uid (r # rs) existingAppts n s =
     (if truthy (req_date r) \<and> truthy (req_time r)
      then
        (let d = show_str (req_date r); t = show_str (req_time r) in
         if isDuplicate d t existingAppts then createRequested uid rs existingAppts n s
         else
           (let (newAppt, s1) =
                  createAppointment uid d t
                    (Some (or_default (req_description r) default_description)) ''pending'' s
            in createRequested uid rs (existingAppts @ [newAppt]) (Suc n) s1))
      else createRequested uid rs existingAppts n s)"

subsection \<open>Cancellations from the extracted requests\<close>

definition cancel_patch :: appt_patch where
  "cancel_patch = \<lparr>patch_date = None, patch_time = None, patch_status = Some ''cancelled''\<rparr>"

definition matchingAppt :: "cancelRequest \<Rightarrow> appointment list \<Rightarrow> appointment option" where
  "matchingAppt c userAppts =
     List.find (\<lambda>a. Some (appt_date a) = creq_date c \<and>
                     normalizeTime (appt_time a) = normalizeTime (or_default (creq_time c) []) \<and>
                     appt_status a \<noteq> ''cancelled'') userAppts"

text \<open>The \<open>for\<close> loop over \<open>cancellationRequests\<close>; \<open>userAppts\<close> is read once, before it.\<close>

fun applyCancellations :: "appointment list \<Rightarrow> cancelRequest list \<Rightarrow> store \<Rightarrow> store" where
  "applyCancellations userAppts [] s = s"
| "applyCancellations userAppts (c # cs) s =
     (case matchingAppt c userAppts of
        None \<Rightarrow> applyCancellations userAppts cs s
      | Some m \<Rightarrow>
          applyCancellations userAppts cs (updateAppointment (Some (appt_id m)) cancel_patch s))"

subsection \<open>The two ways to finalize\<close>

definition sessionUser :: "callSession option \<Rightarrow> store \<Rightarrow> user option" where
  "sessionUser session s =
     (case session of
        None \<Rightarrow> None
      | Some c \<Rightarrow>
         (case cs_userId c of
            None \<Rightarrow> None
          | Some uid \<Rightarrow> if uid = 0 then None else getUser s uid))"

definition sessionPhone :: "callSession option \<Rightarrow> string option" where
  "sessionPhone session = (case session of None \<Rightarrow> None | Some c \<Rightarrow> cs_phoneNumber c)"

definition userNameOf :: "user option \<Rightarrow> string option" where
  "userNameOf user = (case user of None \<Rightarrow> None | Some u \<Rightarrow> user_name u)"

definition fallbackSummary :: "string option \<Rightarrow> string" where
  "fallbackSummary transcript =
     (if truthy transcript then ''Call completed. Transcript has been saved.''
      else ''Call completed.'')"

text \<open>The outer \<open>catch\<close> block.\<close>

definition fallback ::
  "nat \<Rightarrow> string option \<Rightarrow> callSession option \<Rightarrow> user option \<Rightarrow> store \<Rightarrow>
   summary_result \<times> store" where
  "fallback sessionId transcript session user s =
     (let appts = user_views user s
      in (\<lparr>sr_summary = fallbackSummary transcript, sr_appointments = appts,
            sr_userPreferences = [], sr_userName = or_undefined (userNameOf user),
            sr_phoneNumber = or_undefined (sessionPhone session),
            sr_newAppointmentsCreated = None\<rparr>,
          endCallSession sessionId (fallbackSummary transcript) appts [] transcript s))"

text \<open>The \<open>try\<close> block from the parsed answer on.\<close>

definition applyExtraction ::
  "nat \<Rightarrow> string option \<Rightarrow> callSession option \<Rightarrow> user option \<Rightarrow> extractedData \<Rightarrow> store \<Rightarrow>
   summary_result \<times> store" where
  "applyExtraction sessionId transcript session user0 ex s =
     (let extractedPhone =
            or_else (map_option strip_non_digits (ex_phoneNumber ex)) (sessionPhone session);
          extractedName = or_else (ex_userName ex) (userNameOf user0);
          (user, s1) = resolveUser user0 extractedPhone extractedName s;
          (existingAppts, n, s2) =
            (case user of
               None \<Rightarrow> ([], 0, s1)
             | Some u \<Rightarrow>
                 createRequested (user_id u) (ex_appointmentRequests ex)
                   (getAppointmentsByUser s1 (user_id u)) 0 s1);
          s3 = (case user of
                  None \<Rightarrow> s2
                | Some u \<Rightarrow>
                    applyCancellations (getAppointmentsByUser s2 (user_id u))
                      (ex_cancellationRequests ex) s2);
          appts = user_views user s3;
          summ = or_default (ex_summary ex) ''Call completed.'';
          userPreferences = ex_userPreferences ex
      in (\<lparr>sr_summary =
              summ @ (if 0 < n
                      then '' '' @ show_nat n @
                           '' appointment(s) were automatically created from this conversation.''
                      else []),
            sr_appointments = appts, sr_userPreferences = userPreferences,
            sr_userName = or_undefined extractedName,
            sr_phoneNumber = or_undefined extractedPhone,
            sr_newAppointmentsCreated = Some n\<rparr>,
          endCallSession sessionId
            (summ @ (if 0 < n then '' ('' @ show_nat n @ '' appointment(s) created)'' else []))
            appts userPreferences transcript s3))"

definition generateCallSummary ::
  "nat \<Rightarrow> string option \<Rightarrow> llm_response \<Rightarrow> store \<Rightarrow> summary_result \<times> store" where
  "generateCallSummary sessionId transcript response s =
     (let session = getCallSession s sessionId;
          user = sessionUser session s
      in case response of
           LlmError \<Rightarrow> fallback sessionId transcript session user s
         | Unparsable \<Rightarrow> applyExtraction sessionId transcript session user unparsable_default s
         | Parsed ex \<Rightarrow> applyExtraction sessionId transcript session user ex s)"

section \<open>The tool endpoint of the video call provider (server/routes.ts)\<close>

text \<open>
  The handler of \<open>/api/bey/tool-execute\<close> keeps a \<open>BeyContext\<close> per call. Its cases
  \<open>identify_user\<close> and \<open>set_user_name\<close> are the other two places that write a user's
  name; each is a function of the arguments, the call's context and the store.
\<close>

record beyContext =
  bey_callId :: string
  bey_agentId :: string
  bey_userId :: "nat option"
  bey_phoneNumber :: "string option"
  bey_userName :: "string option"

record bey_args =
  barg_phone_number :: "string option"
  barg_name :: "string option"

text \<open>\<open>d.slice(-4)\<close>\<close>

definition last4 :: "string \<Rightarrow> string" where
  "last4 d = drop (length d - 4) d"

definition toolExecute_identify_user ::
  "bey_args \<Rightarrow> beyContext \<Rightarrow> store \<Rightarrow> string \<times> beyContext \<times> store" where
  "toolExecute_identify_user args ctx s =
     (let phone = or_default (barg_phone_number args) [];
          name = or_default (barg_name args) [];
          digitsOnly = strip_non_digits phone in
      if digitsOnly = [] then (''Please provide a valid phone number.'', ctx, s)
      else
        (case getUserByPhoneNumber s digitsOnly of
           None \<Rightarrow>
             (let (u, s1) = createUser digitsOnly (or_undefined (Some name)) s;
                  ctx' = ctx\<lparr>bey_userId := Some (user_id u), bey_phoneNumber := Some digitsOnly,
                             bey_userName := or_undefined (user_name u)\<rparr>
              in (if name = []
                  then ''I've confirmed your phone number ending in '' @ last4 digitsOnly @
                       ''. May I have your name please?''
                  else ''Thank you, '' @ name @
                       ''! I've created your account. You don't have any appointments scheduled yet. Would you like to book an appointment?'',
                  ctx', s1))
         | Some found \<Rightarrow>
             (let (u, s1) =
                    (if name \<noteq> [] \<and> \<not> truthy (user_name found)
                     then (found\<lparr>user_name := Some name\<rparr>, updateUser (user_id found) name s)
                     else (found, s));
                  ctx' = ctx\<lparr>bey_userId := Some (user_id u), bey_phoneNumber := Some digitsOnly,
                             bey_userName := or_undefined (user_name u)\<rparr>;
                  userName = (if truthy (user_name u) then '', '' @ show_str (user_name u) else []);
                  active = filter is_active (getAppointmentsByUser s1 (user_id u))
              in (if length active = 0
                  then ''Welcome back'' @ userName @ ''! Your phone number ending in '' @
                       last4 digitsOnly @
                       '' is confirmed. You don't have any appointments scheduled. Would you like to book one?''
                  else ''Welcome back'' @ userName @ ''! I found '' @ show_nat (length active) @
                       '' appointment'' @ (if length active > 1 then ''s'' else []) @
                       '' for you: '' @
                       join ''; '' (map (\<lambda>a. appt_date a @ '' at '' @ appt_time a @
                                           (if truthy (appt_description a)
                                            then '' for '' @ show_str (appt_description a) else []))
                                      active) @
                       ''. Would you like to book a new appointment, or modify or cancel an existing one?'',
                  ctx', s1))))"

definition toolExecute_set_user_name ::
  "bey_args \<Rightarrow> beyContext \<Rightarrow> store \<Rightarrow> string \<times> beyContext \<times> store" where
  "toolExecute_set_user_name args ctx s =
     (case bey_userId ctx of
        None \<Rightarrow> (''Please provide your phone number first.'', ctx, s)
      | Some uid \<Rightarrow>
         if uid = 0 then (''Please provide your phone number first.'', ctx, s)
         else
           (let name = or_default (barg_name args) [] in
            if name = [] then (''Please tell me your name.'', ctx, s)
            else (''Thank you, '' @ name @
                  ''! Your name has been saved. Would you like to book an appointment?'',
                  ctx\<lparr>bey_userName := Some name\<rparr>, updateUser uid name s)))"

section \<open>Notions the properties are stated with\<close>

text \<open>
  A request the loop acts on has a date and a time; it is satisfied by a list of
  appointments when the loop would skip it as a duplicate. A cancellation request hits a
  booking request when it names the same date and the same normalized time. The ids of a
  store are fresh when they are distinct and below the next value of the sequence, as the
  primary key and the \<open>serial\<close> column make them.
\<close>

definition request_present :: "apptRequest \<Rightarrow> bool" where
  "request_present r = (truthy (req_date r) \<and> truthy (req_time r))"

definition satisfied :: "appointment list \<Rightarrow> apptRequest \<Rightarrow> bool" where
  "satisfied existingAppts r =
     (request_present r \<longrightarrow>
        isDuplicate (show_str (req_date r)) (show_str (req_time r)) existingAppts)"

definition cancellation_hits :: "cancelRequest \<Rightarrow> apptRequest \<Rightarrow> bool" where
  "cancellation_hits c r =
     (request_present r \<and> creq_date c = req_date r \<and>
      normalizeTime (or_default (creq_time c) []) = normalizeTime (show_str (req_time r)))"

definition cancels_a_request :: "extractedData \<Rightarrow> bool" where
  "cancels_a_request ex =
     list_ex (\<lambda>c. list_ex (cancellation_hits c) (ex_appointmentRequests ex))
       (ex_cancellationRequests ex)"

definition fresh_ids :: "store \<Rightarrow> bool" where
  "fresh_ids s =
     (distinct (map appt_id (appointments s)) \<and>
      list_all (\<lambda>a. appt_id a < nextAppointmentId s) (appointments s))"

text \<open>The ids of the appointments the cancellation loop updates.\<close>

definition cancelled_ids :: "appointment list \<Rightarrow> cancelRequest list \<Rightarrow> nat list" where
  "cancelled_ids userAppts cs = map appt_id (List.map_filter (\<lambda>c. matchingAppt c userAppts) cs)"

text \<open>
  Which user a run resolves depends on the store through the ids and phone numbers of its
  users only: the user the session links to if there is one, else the first user with
  the extracted phone number, else a new user with the next id.
\<close>

definition user_keys :: "store \<Rightarrow> (nat \<times> string) list" where
  "user_keys s = map (\<lambda>u. (user_id u, user_phoneNumber u)) (users s)"

definition session_key :: "callSession option \<Rightarrow> nat option" where
  "session_key session = (case session of None \<Rightarrow> None | Some c \<Rightarrow> cs_userId c)"

definition linked_id :: "nat option \<Rightarrow> (nat \<times> string) list \<Rightarrow> nat option" where
  "linked_id k keys =
     (case k of None \<Rightarrow> None
      | Some i \<Rightarrow> if i \<noteq> 0 \<and> i \<in> fst ` set keys then Some i else None)"

definition valid_phone :: "string option \<Rightarrow> bool" where
  "valid_phone phone = (case phone of None \<Rightarrow> False | Some p \<Rightarrow> p \<noteq> [] \<and> 10 \<le> length p)"

definition resolved_id ::
  "nat option \<Rightarrow> string option \<Rightarrow> (nat \<times> string) list \<Rightarrow> nat \<Rightarrow> nat option" where
  "resolved_id linked phone keys next =
     (case linked of
        Some i \<Rightarrow> Some i
      | None \<Rightarrow>
         if valid_phone phone
         then (case List.find (\<lambda>k. Some (snd k) = phone) keys of
                 Some k \<Rightarrow> Some (fst k) | None \<Rightarrow> Some next)
         else None)"

definition keys_after ::
  "nat option \<Rightarrow> string option \<Rightarrow> (nat \<times> string) list \<Rightarrow> nat \<Rightarrow> (nat \<times> string) list" where
  "keys_after linked phone keys next =
     (if linked = None \<and> valid_phone phone \<and> List.find (\<lambda>k. Some (snd k) = phone) keys = None
      then keys @ [(next, show_str phone)] else keys)"

definition extractedPhone :: "extractedData \<Rightarrow> callSession option \<Rightarrow> string option" where
  "extractedPhone ex session =
     or_else (map_option strip_non_digits (ex_phoneNumber ex)) (sessionPhone session)"

definition run_user_id :: "nat \<Rightarrow> extractedData \<Rightarrow> store \<Rightarrow> nat option" where
  "run_user_id sid ex s =
     resolved_id (linked_id (session_key (getCallSession s sid)) (user_keys s))
       (extractedPhone ex (getCallSession s sid)) (user_keys s) (nextUserId s)"


section \<open>Sample states\<close>

text \<open>
  A database with one active session and nothing else, and the states the examples
  below start from.
\<close>

definition session1 :: callSession where
  "session1 =
     \<lparr>cs_id = 1, cs_userId = None, cs_phoneNumber = None, cs_status = ''active'',
      cs_transcript = None, cs_summary = None, cs_bookedAppointments = None,
      cs_userPreferences = None\<rparr>"

definition empty_store :: store where
  "empty_store =
     \<lparr>users = [], appointments = [], callSessions = [session1],
      nextUserId = 1, nextAppointmentId = 1\<rparr>"

definition caller :: "nat \<Rightarrow> conversationContext" where
  "caller uid =
     \<lparr>ctx_sessionId = 1, ctx_userId = Some uid, ctx_phoneNumber = None, ctx_userName = None,
      ctx_messages = []\<rparr>"

definition anonymous :: conversationContext where
  "anonymous =
     \<lparr>ctx_sessionId = 1, ctx_userId = None, ctx_phoneNumber = None, ctx_userName = None,
      ctx_messages = []\<rparr>"

definition no_args :: tool_args where
  "no_args =
     \<lparr>arg_phone_number = None, arg_date = None, arg_time = None, arg_description = None,
      arg_appointment_id = None, arg_new_date = None, arg_new_time = None\<rparr>"

definition phone_args :: "string \<Rightarrow> tool_args" where
  "phone_args p = no_args\<lparr>arg_phone_number := Some p\<rparr>"

definition book_args :: "string \<Rightarrow> string \<Rightarrow> tool_args" where
  "book_args d t = no_args\<lparr>arg_date := Some d, arg_time := Some t\<rparr>"

definition cancel_args :: "nat \<Rightarrow> tool_args" where
  "cancel_args i = no_args\<lparr>arg_appointment_id := Some i\<rparr>"

definition modify_args :: "nat \<Rightarrow> string option \<Rightarrow> string option \<Rightarrow> tool_args" where
  "modify_args i d t = no_args\<lparr>arg_appointment_id := Some i, arg_new_date := d, arg_new_time := t\<rparr>"

text \<open>The store a tool call leaves behind.\<close>

definition after :: "string \<Rightarrow> tool_args \<Rightarrow> conversationContext \<Rightarrow> store \<Rightarrow> store" where
  "after toolName args ctx s = snd (executeToolCall toolName args ctx s)"

definition appt1 :: appointment where
  "appt1 =
     \<lparr>appt_id = 1, appt_userId = 1, appt_date = ''2026-01-28'', appt_time = ''09:00 AM'',
      appt_description = None, appt_status = ''scheduled''\<rparr>"

definition alice :: user where
  "alice = \<lparr>user_id = 1, user_phoneNumber = ''5551234567'', user_name = Some ''Alice''\<rparr>"

definition bob :: user where
  "bob = \<lparr>user_id = 2, user_phoneNumber = ''5559876543'', user_name = None\<rparr>"

definition two_users :: store where
  "two_users = empty_store\<lparr>users := [alice, bob], nextUserId := 3\<rparr>"

definition cancelled1 :: appointment where
  "cancelled1 = appt1\<lparr>appt_status := ''cancelled''\<rparr>"

definition appt2 :: appointment where
  "appt2 =
     \<lparr>appt_id = 2, appt_userId = 2, appt_date = ''2026-01-28'', appt_time = ''09:00 AM'',
      appt_description = None, appt_status = ''scheduled''\<rparr>"

definition appt3 :: appointment where
  "appt3 =
     \<lparr>appt_id = 2, appt_userId = 2, appt_date = ''2026-01-29'', appt_time = ''11:00 AM'',
      appt_description = None, appt_status = ''scheduled''\<rparr>"

text \<open>Alice holds the first slot of the catalog.\<close>

definition one_booking :: store where
  "one_booking = two_users\<lparr>appointments := [appt1], nextAppointmentId := 2\<rparr>"

text \<open>Alice and Bob hold different slots.\<close>

definition two_bookings :: store where
  "two_bookings = two_users\<lparr>appointments := [appt1, appt3], nextAppointmentId := 3\<rparr>"

text \<open>Alice has cancelled her appointment and Bob has booked the slot it had.\<close>

definition rebooked :: store where
  "rebooked = two_users\<lparr>appointments := [cancelled1, appt2], nextAppointmentId := 3\<rparr>"

text \<open>Both appointments on the one slot are active.\<close>

definition double_booked :: store where
  "double_booked = two_users\<lparr>appointments := [appt1, appt2], nextAppointmentId := 3\<rparr>"

text \<open>A sequence of tool calls, each with the context of its caller, run one after the other.\<close>

fun run_calls :: "(string \<times> tool_args \<times> conversationContext) list \<Rightarrow> store \<Rightarrow> store" where
  "run_calls [] s = s"
| "run_calls ((toolName, args, ctx) # calls) s = run_calls calls (after toolName args ctx s)"

text \<open>
  The double-booking guard as a predicate of the store: no two appointments that are not
  cancelled have the same date and time, that is, the list \<open>getBookedSlots\<close> returns has
  no entry twice.
\<close>

definition no_double_booking :: "store \<Rightarrow> bool" where
  "no_double_booking s = distinct (getBookedSlots s)"

text \<open>A call of Alice's: the session is linked to her, and she holds one appointment.\<close>

definition alice_session :: callSession where
  "alice_session = session1\<lparr>cs_userId := Some 1, cs_phoneNumber := Some ''5551234567''\<rparr>"


text \<open>A call of Alice's while Bob holds the first slot of the catalog.\<close>

definition bob_holds_slot :: store where
  "bob_holds_slot =
     two_users\<lparr>appointments := [appt2\<lparr>appt_id := 1\<rparr>], nextAppointmentId := 2,
               callSessions := [alice_session]\<rparr>"

text \<open>
  An extraction with two confirmed bookings: the slot Bob holds, and an evening in March.
\<close>

definition two_requests :: extractedData where
  "two_requests =
     \<lparr>ex_userName = None, ex_phoneNumber = None,
      ex_appointmentRequests =
        [\<lparr>req_date = Some ''2026-01-28'', req_time = Some ''09:00 AM'', req_description = None\<rparr>,
         \<lparr>req_date = Some ''2026-03-15'', req_time = Some ''7:45 PM'',
          req_description = Some ''consultation''\<rparr>],
      ex_cancellationRequests = [], ex_summary = Some ''Two bookings.'',
      ex_userPreferences = []\<rparr>"

text \<open>The provider's context of a call in which Alice has been identified.\<close>

definition alice_bey :: beyContext where
  "alice_bey =
     \<lparr>bey_callId = ''call-1'', bey_agentId = [], bey_userId = Some 1,
      bey_phoneNumber = Some ''5551234567'', bey_userName = Some ''Alice''\<rparr>"

definition name_args :: "string \<Rightarrow> bey_args" where
  "name_args n = \<lparr>barg_phone_number = None, barg_name = Some n\<rparr>"




section \<open>Properties\<close>

subsection \<open>Phone numbers\<close>

lemma contains_mid: "contains (a @ t @ b) t"
  unfolding contains_def by blast

lemma too_many_repeat: "contains (too_many_digits_text p) ''repeat''"
proof -
  have "too_many_digits_text p =
      (''I heard '' @ p @ '', but that seems to have more than 10 digits. Could you please '')
      @ ''repeat'' @ '' your phone number slowly?''"
    by (simp add: too_many_digits_text_def)
  then show ?thesis by (metis contains_mid)
qed

lemma too_few_repeat: "contains (too_few_digits_text p) ''repeat''"
proof -
  have "too_few_digits_text p =
      (''I heard '' @ p @ '', but that seems to have fewer than 10 digits. Could you please '')
      @ ''repeat'' @ '' your complete phone number?''"
    by (simp add: too_few_digits_text_def)
  then show ?thesis by (metis contains_mid)
qed

lemma identify_user_depends_on_digits:
  assumes "arg_phone_number args = Some p" "arg_phone_number args' = Some p'"
    and "strip_non_digits p = strip_non_digits p'" "length (strip_non_digits p) = 10"
  shows "tool_identify_user args ctx s = tool_identify_user args' ctx s"
  using assms by (simp add: tool_identify_user_def Let_def)

lemma identify_user_wrong_length:
  assumes "arg_phone_number args = Some p" "length (strip_non_digits p) \<noteq> 10"
  shows "tool_identify_user args ctx s =
     (Inr \<lparr>tr_result = (if 10 < length (strip_non_digits p) then too_many_digits_text p
                          else too_few_digits_text p),
           tr_context = ctx, tr_endCall = False\<rparr>, s)"
  using assms by (simp add: tool_identify_user_def Let_def returns_def)

text \<open>
  C6. \<open>identify_user\<close> normalizes the phone number it is given by removing every
  character that is not a digit, so \<open>555-123-4567\<close>, \<open>(555) 123-4567\<close> and
  \<open>5551234567\<close> have one normal form, and two inputs with the same ten digits make the
  call behave identically. When the digits are more or fewer than ten, the call returns
  a text asking to repeat the number and leaves the store (no user, no session update)
  and the context as they were; the text does not depend on the store.
\<close>

theorem identify_user_phone_normalization:
  assumes "arg_phone_number args = Some p" and "arg_phone_number args' = Some p'"
  shows "strip_non_digits p = filter (\<lambda>c. c \<in> set ''0123456789'') p
    \<and> strip_non_digits ''555-123-4567'' = ''5551234567''
    \<and> strip_non_digits ''(555) 123-4567'' = ''5551234567''
    \<and> strip_non_digits ''5551234567'' = ''5551234567''
    \<and> (strip_non_digits p = strip_non_digits p' \<and> length (strip_non_digits p) = 10 \<longrightarrow>
         executeToolCall ''identify_user'' args ctx s = executeToolCall ''identify_user'' args' ctx s)
    \<and> (length (strip_non_digits p) \<noteq> 10 \<longrightarrow>
         (\<exists>txt. executeToolCall ''identify_user'' args ctx s =
                  (Inr \<lparr>tr_result = txt, tr_context = ctx, tr_endCall = False\<rparr>, s)
              \<and> txt = (if 10 < length (strip_non_digits p) then too_many_digits_text p
                          else too_few_digits_text p)
              \<and> contains txt ''repeat''))"
proof -
  have a: "strip_non_digits p = filter (\<lambda>c. c \<in> set ''0123456789'') p"
    unfolding strip_non_digits_def is_digit_def ..
  have b: "strip_non_digits ''555-123-4567'' = ''5551234567''"
      "strip_non_digits ''(555) 123-4567'' = ''5551234567''"
      "strip_non_digits ''5551234567'' = ''5551234567''"
    by (simp_all add: strip_non_digits_def is_digit_def)
  have c: "strip_non_digits p = strip_non_digits p' \<and> length (strip_non_digits p) = 10 \<longrightarrow>
         executeToolCall ''identify_user'' args ctx s = executeToolCall ''identify_user'' args' ctx s"
  proof (intro impI, elim conjE)
    assume h: "strip_non_digits p = strip_non_digits p'" "length (strip_non_digits p) = 10"
    show "executeToolCall ''identify_user'' args ctx s = executeToolCall ''identify_user'' args' ctx s"
      using identify_user_depends_on_digits [OF assms h] by (simp add: executeToolCall_def)
  qed
  have d: "length (strip_non_digits p) \<noteq> 10 \<longrightarrow>
         (\<exists>txt. executeToolCall ''identify_user'' args ctx s =
                  (Inr \<lparr>tr_result = txt, tr_context = ctx, tr_endCall = False\<rparr>, s)
              \<and> txt = (if 10 < length (strip_non_digits p) then too_many_digits_text p
                          else too_few_digits_text p)
              \<and> contains txt ''repeat'')"
    using identify_user_wrong_length [OF assms(1)] too_many_repeat too_few_repeat
    by (simp add: executeToolCall_def)
  from a b c d show ?thesis by blast
qed

theorem identify_user_phone_normalization_witness:
  "executeToolCall ''identify_user'' (phone_args ''555-123-4567'') anonymous empty_store =
     executeToolCall ''identify_user'' (phone_args ''(555) 123-4567'') anonymous empty_store
   \<and> (\<exists>txt. executeToolCall ''identify_user'' (phone_args ''555-1234'') anonymous empty_store =
               (Inr \<lparr>tr_result = txt, tr_context = anonymous, tr_endCall = False\<rparr>, empty_store)
            \<and> txt = too_few_digits_text ''555-1234'' \<and> contains txt ''repeat'')"
  using identify_user_phone_normalization
          [of "phone_args ''555-123-4567''" "''555-123-4567''"
              "phone_args ''(555) 123-4567''" "''(555) 123-4567''" anonymous empty_store]
        identify_user_phone_normalization
          [of "phone_args ''555-1234''" "''555-1234''"
              "phone_args ''555-1234''" "''555-1234''" anonymous empty_store]
  by (simp add: phone_args_def no_args_def strip_non_digits_def is_digit_def)

subsection \<open>Booking\<close>

lemma some_slot_iff:
  "some_slot d t slots \<longleftrightarrow> (\<exists>x y. (x, y) \<in> set slots \<and> d = Some x \<and> t = Some y)"
  by (force simp: some_slot_def list_ex_iff)




lemma book_not_identified:
  assumes "ctx_userId ctx = None \<or> ctx_userId ctx = Some 0"
  shows "tool_book_appointment args ctx s = returns not_identified_book_text ctx s"
  using assms by (auto simp: tool_book_appointment_def)

lemma book_taken:
  assumes "ctx_userId ctx = Some uid" "uid \<noteq> 0"
    and "some_slot (arg_date args) (arg_time args) (getBookedSlots s)"
  shows "tool_book_appointment args ctx s =
           returns (slot_taken_text (arg_date args) (arg_time args)) ctx s"
  using assms by (simp add: tool_book_appointment_def)

lemma book_not_in_catalog:
  assumes "ctx_userId ctx = Some uid" "uid \<noteq> 0"
    and "\<not> some_slot (arg_date args) (arg_time args) (getBookedSlots s)"
    and "\<not> some_slot (arg_date args) (arg_time args) availableSlots"
  shows "tool_book_appointment args ctx s =
           returns (not_a_slot_text (arg_date args) (arg_time args)) ctx s"
  using assms by (simp add: tool_book_appointment_def)

lemma book_success:
  assumes "ctx_userId ctx = Some uid" "uid \<noteq> 0"
    and "\<not> some_slot (arg_date args) (arg_time args) (getBookedSlots s)"
    and "some_slot (arg_date args) (arg_time args) availableSlots"
  shows "\<exists>d t. arg_date args = Some d \<and> arg_time args = Some t \<and>
           tool_book_appointment args ctx s =
             returns (booked_text d t (nextAppointmentId s) (arg_description args)) ctx
               (s\<lparr>appointments := appointments s @
                     [\<lparr>appt_id = nextAppointmentId s, appt_userId = uid, appt_date = d,
                       appt_time = t, appt_description = arg_description args,
                       appt_status = ''scheduled''\<rparr>],
                   nextAppointmentId := Suc (nextAppointmentId s)\<rparr>)"
proof -
  from assms(4) obtain d t where dt: "arg_date args = Some d" "arg_time args = Some t"
    by (auto simp: some_slot_iff)
  show ?thesis
    using assms dt by (simp add: tool_book_appointment_def createAppointment_def Let_def)
qed



subsection \<open>Cancelling\<close>

lemma find_map_key:
  assumes "\<And>x. P (f x) = P x"
  shows "List.find P (map f xs) = map_option f (List.find P xs)"
  using assms by (induction xs) auto

lemma getAppointment_after_cancel:
  "getAppointment (snd (cancelAppointment i s)) j =
     map_option (\<lambda>a. if Some (appt_id a) = i then a\<lparr>appt_status := ''cancelled''\<rparr> else a)
       (getAppointment s j)"
  by (simp add: getAppointment_def cancelAppointment_def Let_def find_map_key)

lemma getAppointment_key: "getAppointment s i = Some a \<Longrightarrow> Some (appt_id a) = i"
  unfolding getAppointment_def by (auto simp: find_Some_iff)

lemma cancel_twice_store: "snd (cancelAppointment i (snd (cancelAppointment i s))) = snd (cancelAppointment i s)"
  by (simp add: cancelAppointment_def Let_def comp_def)

lemma cancel_twice: "cancelAppointment i (snd (cancelAppointment i s)) = cancelAppointment i s"
proof -
  have "fst (cancelAppointment i t) = getAppointment (snd (cancelAppointment i t)) i" for t
    by (simp add: cancelAppointment_def Let_def)
  then show ?thesis
    by (metis cancel_twice_store prod.collapse)
qed

lemma cancel_result_cancelled:
  "fst (cancelAppointment i s) = Some a \<Longrightarrow> appt_status a = ''cancelled''"
proof -
  assume h: "fst (cancelAppointment i s) = Some a"
  have "fst (cancelAppointment i s) = getAppointment (snd (cancelAppointment i s)) i"
    by (simp add: cancelAppointment_def Let_def)
  with h obtain b where b: "getAppointment s i = Some b"
      "a = (if Some (appt_id b) = i then b\<lparr>appt_status := ''cancelled''\<rparr> else b)"
    by (auto simp: getAppointment_after_cancel)
  with getAppointment_key [OF b(1)] show ?thesis by simp
qed

lemma cancel_already_cancelled:
  assumes "truthy_num (ctx_userId ctx)" "getAppointment s (arg_appointment_id args) = Some a"
    "Some (appt_userId a) = ctx_userId ctx" "appt_status a = ''cancelled''"
  shows "tool_cancel_appointment args ctx s = returns already_cancelled_text ctx s"
  using assms by (simp add: tool_cancel_appointment_def Let_def)

lemma cancel_leaves_cancelled:
  assumes "truthy_num (ctx_userId ctx)" "getAppointment s (arg_appointment_id args) = Some a"
    "Some (appt_userId a) = ctx_userId ctx"
  shows "getAppointment (snd (tool_cancel_appointment args ctx s)) (arg_appointment_id args) =
           Some (a\<lparr>appt_status := ''cancelled''\<rparr>)"
proof (cases "appt_status a = ''cancelled''")
  case True
  then have "a\<lparr>appt_status := ''cancelled''\<rparr> = a" by simp
  then show ?thesis
    using cancel_already_cancelled [OF assms True] assms(2) by (simp add: returns_def)
next
  case False
  then show ?thesis
    using assms getAppointment_key [OF assms(2)]
    by (simp add: tool_cancel_appointment_def Let_def returns_def getAppointment_after_cancel)
qed

text \<open>
  C8. Cancelling is idempotent. In the store, a second \<open>cancelAppointment\<close> of the same
  id returns the same row and leaves the same store as the first, and the row returned
  has status \<open>cancelled\<close>. In the tool executor, \<open>cancel_appointment\<close> on the caller's
  own appointment that is already cancelled returns an informative text (a result, not an
  exception) and the store unchanged; in particular that is what a second call does
  after a first one, whatever the appointment's status was before.
\<close>

theorem cancellation_idempotent:
  "cancelAppointment i (snd (cancelAppointment i s)) = cancelAppointment i s
   \<and> (\<forall>b. fst (cancelAppointment i s) = Some b \<longrightarrow> appt_status b = ''cancelled'')
   \<and> (truthy_num (ctx_userId ctx) \<and> getAppointment s (arg_appointment_id args) = Some a
        \<and> Some (appt_userId a) = ctx_userId ctx \<and> appt_status a = ''cancelled''
      \<longrightarrow> executeToolCall ''cancel_appointment'' args ctx s =
            (Inr \<lparr>tr_result = already_cancelled_text, tr_context = ctx, tr_endCall = False\<rparr>, s))
   \<and> (truthy_num (ctx_userId ctx) \<and> getAppointment s (arg_appointment_id args) = Some a
        \<and> Some (appt_userId a) = ctx_userId ctx
      \<longrightarrow> getAppointment (after ''cancel_appointment'' args ctx s) (arg_appointment_id args) =
            Some (a\<lparr>appt_status := ''cancelled''\<rparr>)
        \<and> executeToolCall ''cancel_appointment'' args ctx (after ''cancel_appointment'' args ctx s) =
            (Inr \<lparr>tr_result = already_cancelled_text, tr_context = ctx, tr_endCall = False\<rparr>,
             after ''cancel_appointment'' args ctx s))"
proof -
  have exec: "executeToolCall ''cancel_appointment'' args ctx t = tool_cancel_appointment args ctx t" for t
    by (simp add: executeToolCall_def)
  have aft: "after ''cancel_appointment'' args ctx s = snd (tool_cancel_appointment args ctx s)"
    by (simp add: after_def exec)
  show ?thesis
  proof (intro conjI impI allI)
    show "cancelAppointment i (snd (cancelAppointment i s)) = cancelAppointment i s"
      by (rule cancel_twice)
  next
    fix b assume "fst (cancelAppointment i s) = Some b"
    then show "appt_status b = ''cancelled''" by (rule cancel_result_cancelled)
  next
    assume "truthy_num (ctx_userId ctx) \<and> getAppointment s (arg_appointment_id args) = Some a
        \<and> Some (appt_userId a) = ctx_userId ctx \<and> appt_status a = ''cancelled''"
    then show "executeToolCall ''cancel_appointment'' args ctx s =
            (Inr \<lparr>tr_result = already_cancelled_text, tr_context = ctx, tr_endCall = False\<rparr>, s)"
      using cancel_already_cancelled [of ctx s args a] by (simp add: exec returns_def)
  next
    assume h: "truthy_num (ctx_userId ctx) \<and> getAppointment s (arg_appointment_id args) = Some a
        \<and> Some (appt_userId a) = ctx_userId ctx"
    then show "getAppointment (after ''cancel_appointment'' args ctx s) (arg_appointment_id args) =
            Some (a\<lparr>appt_status := ''cancelled''\<rparr>)"
      using cancel_leaves_cancelled [of ctx s args a] by (simp add: aft)
  next
    assume h: "truthy_num (ctx_userId ctx) \<and> getAppointment s (arg_appointment_id args) = Some a
        \<and> Some (appt_userId a) = ctx_userId ctx"
    then have g: "getAppointment (snd (tool_cancel_appointment args ctx s)) (arg_appointment_id args) =
            Some (a\<lparr>appt_status := ''cancelled''\<rparr>)"
      using cancel_leaves_cancelled [of ctx s args a] by simp
    show "executeToolCall ''cancel_appointment'' args ctx (after ''cancel_appointment'' args ctx s) =
            (Inr \<lparr>tr_result = already_cancelled_text, tr_context = ctx, tr_endCall = False\<rparr>,
             after ''cancel_appointment'' args ctx s)"
      using cancel_already_cancelled [OF _ g] h by (simp add: exec aft returns_def)
  qed
qed

theorem cancellation_idempotent_witness:
  "cancelAppointment (Some 1) (snd (cancelAppointment (Some 1) one_booking)) =
     cancelAppointment (Some 1) one_booking
   \<and> getAppointment (after ''cancel_appointment'' (cancel_args 1) (caller 1) one_booking) (Some 1) =
       Some (appt1\<lparr>appt_status := ''cancelled''\<rparr>)
   \<and> executeToolCall ''cancel_appointment'' (cancel_args 1) (caller 1)
         (after ''cancel_appointment'' (cancel_args 1) (caller 1) one_booking) =
       (Inr \<lparr>tr_result = already_cancelled_text, tr_context = caller 1, tr_endCall = False\<rparr>,
        after ''cancel_appointment'' (cancel_args 1) (caller 1) one_booking)"
  using cancellation_idempotent [of "Some 1" one_booking "caller 1" "cancel_args 1" appt1]
  by (simp add: truthy_num_def caller_def cancel_args_def no_args_def getAppointment_def
        one_booking_def two_users_def empty_store_def appt1_def)

subsection \<open>Missing arguments\<close>

lemma identify_user_without_phone_throws:
  "arg_phone_number args = None \<Longrightarrow>
     executeToolCall ''identify_user'' args ctx s = (Inl TypeError, s)"
  by (simp add: executeToolCall_def tool_identify_user_def)

lemma returns_is_result: "\<exists>r. fst (returns txt ctx s) = Inr r"
  by (simp add: returns_def)

lemma fetch_slots_returns: "\<exists>r. fst (tool_fetch_slots args ctx s) = Inr r"
  by (simp add: tool_fetch_slots_def returns_def Let_def)

lemma book_returns: "\<exists>r. fst (tool_book_appointment args ctx s) = Inr r"
  by (simp add: tool_book_appointment_def returns_def Let_def split: option.split prod.split)

lemma retrieve_returns: "\<exists>r. fst (tool_retrieve_appointments args ctx s) = Inr r"
  by (simp add: tool_retrieve_appointments_def returns_def Let_def split: option.split)

lemma cancel_returns: "\<exists>r. fst (tool_cancel_appointment args ctx s) = Inr r"
  by (simp add: tool_cancel_appointment_def returns_def Let_def split: option.split)

lemma modify_returns: "\<exists>r. fst (tool_modify_appointment args ctx s) = Inr r"
  by (simp add: tool_modify_appointment_def returns_def Let_def split: option.split)

lemma identify_returns:
  "arg_phone_number args = Some p \<Longrightarrow> \<exists>r. fst (tool_identify_user args ctx s) = Inr r"
  by (simp add: tool_identify_user_def returns_def Let_def split: option.split prod.split)

lemma other_tools_return:
  assumes "toolName \<noteq> ''identify_user'' \<or> arg_phone_number args \<noteq> None"
  shows "\<exists>r. fst (executeToolCall toolName args ctx s) = Inr r"
proof (cases "toolName = ''identify_user''")
  case True
  with assms obtain p where "arg_phone_number args = Some p" by auto
  from identify_returns [OF this] True show ?thesis by (simp add: executeToolCall_def)
next
  case False
  then show ?thesis
    by (simp add: executeToolCall_def fetch_slots_returns book_returns retrieve_returns
          cancel_returns modify_returns returns_is_result)
qed

text \<open>
  C7. \<open>executeToolCall\<close> does throw on a missing required argument: \<open>identify_user\<close>
  with no \<open>phone_number\<close> calls \<open>replace\<close> on \<open>undefined\<close>, a \<open>TypeError\<close>, before it
  reads the store. Every other call returns (\<open>other_tools_return\<close>).
\<close>

theorem identify_user_missing_phone_throws:
  "executeToolCall ''identify_user'' no_args anonymous empty_store = (Inl TypeError, empty_store)"
  by (simp add: executeToolCall_def tool_identify_user_def no_args_def)

subsection \<open>Rescheduling\<close>

lemma getAppointment_after_update:
  "getAppointment (updateAppointment i p s) j =
     map_option (\<lambda>a. if Some (appt_id a) = i then apply_patch p a else a) (getAppointment s j)"
  by (simp add: getAppointment_def updateAppointment_def find_map_key apply_patch_def)

lemma slot_taken_iff:
  "list_ex (\<lambda>sl. fst sl = d \<and> snd sl = t \<and> \<not> (fst sl = d0 \<and> snd sl = t0)) (getBookedSlots s)
   \<longleftrightarrow> (d, t) \<noteq> (d0, t0) \<and>
        (\<exists>b \<in> set (appointments s). is_active b \<and> appt_date b = d \<and> appt_time b = t)"
  by (auto simp: list_ex_iff getBookedSlots_def is_active_def)

lemma modify_run:
  assumes "truthy_num (ctx_userId ctx)"
    and "truthy (arg_new_date args) \<or> truthy (arg_new_time args)"
    and "getAppointment s (arg_appointment_id args) = Some a"
    and "Some (appt_userId a) = ctx_userId ctx"
  shows "tool_modify_appointment args ctx s =
     (let d = or_default (arg_new_date args) (appt_date a);
          t = or_default (arg_new_time args) (appt_time a) in
      if (d, t) \<noteq> (appt_date a, appt_time a) \<and>
         (\<exists>b \<in> set (appointments s). is_active b \<and> appt_date b = d \<and> appt_time b = t)
      then returns (conflict_text d t) ctx s
      else returns (rescheduled_text (arg_appointment_id args) d t) ctx
             (updateAppointment (arg_appointment_id args)
                \<lparr>patch_date = Some d, patch_time = Some t, patch_status = Some ''scheduled''\<rparr> s))"
proof -
  have some: "\<not> (\<not> truthy (arg_new_date args) \<and> \<not> truthy (arg_new_time args))"
    using assms(2) by simp
  show ?thesis
  proof (cases "truthy (arg_new_date args)")
    case True
    then show ?thesis
      unfolding tool_modify_appointment_def Let_def slot_taken_iff
      using assms(1,3,4) by simp
  next
    case False
    with assms(2) have "truthy (arg_new_time args)" by simp
    then show ?thesis
      unfolding tool_modify_appointment_def Let_def slot_taken_iff
      using assms(1,3,4) by simp
  qed
qed

lemma two_active_same_slot:
  assumes "no_double_booking s" "a \<in> set (appointments s)" "b \<in> set (appointments s)"
    "is_active a" "is_active b" "appt_date a = appt_date b" "appt_time a = appt_time b"
  shows "a = b"
proof -
  let ?act = "filter (\<lambda>a. appt_status a \<noteq> ''cancelled'') (appointments s)"
  let ?f = "\<lambda>a. (appt_date a, appt_time a)"
  from assms(1) have "inj_on ?f (set ?act)"
    unfolding no_double_booking_def getBookedSlots_def by (simp add: distinct_map)
  moreover have "a \<in> set ?act" "b \<in> set ?act"
    using assms by (simp_all add: is_active_def)
  moreover have "?f a = ?f b" using assms by simp
  ultimately show ?thesis by (blast dest: inj_onD)
qed


text \<open>
  C4 as the code has it. For a \<open>modify_appointment\<close> call on the caller's own
  appointment, with target \<open>(d, t)\<close> (a field that is not given keeps its current value):
  when a different appointment that is not cancelled has the target, and the target is
  not the appointment's own current date and time, the call returns the conflict text and
  leaves the store, hence the appointment's date, time and status, unchanged. That covers
  every target held by a different active appointment when the modified appointment is
  itself active and no slot is double-booked. When no different active appointment has
  the target, in particular when the target is the appointment's own current slot and no
  other active appointment shares it, the call succeeds: the appointment's date and time
  become the target and its status \<open>scheduled\<close>.
\<close>

theorem modify_appointment_outcomes:
  assumes "truthy_num (ctx_userId ctx)"
    and "truthy (arg_new_date args) \<or> truthy (arg_new_time args)"
    and "getAppointment s (arg_appointment_id args) = Some a"
    and "Some (appt_userId a) = ctx_userId ctx"
    and "d = or_default (arg_new_date args) (appt_date a)"
    and "t = or_default (arg_new_time args) (appt_time a)"
  shows
    "((\<exists>b \<in> set (appointments s). b \<noteq> a \<and> is_active b \<and> appt_date b = d \<and> appt_time b = t)
      \<and> (d, t) \<noteq> (appt_date a, appt_time a)
      \<longrightarrow> executeToolCall ''modify_appointment'' args ctx s =
            (Inr \<lparr>tr_result = conflict_text d t, tr_context = ctx, tr_endCall = False\<rparr>, s))
     \<and> (is_active a \<and> no_double_booking s \<and>
        (\<exists>b \<in> set (appointments s). b \<noteq> a \<and> is_active b \<and> appt_date b = d \<and> appt_time b = t)
      \<longrightarrow> executeToolCall ''modify_appointment'' args ctx s =
            (Inr \<lparr>tr_result = conflict_text d t, tr_context = ctx, tr_endCall = False\<rparr>, s))
     \<and> (\<not> (\<exists>b \<in> set (appointments s).
              b \<noteq> a \<and> is_active b \<and> appt_date b = d \<and> appt_time b = t)
      \<longrightarrow> fst (executeToolCall ''modify_appointment'' args ctx s) =
            Inr \<lparr>tr_result = rescheduled_text (arg_appointment_id args) d t,
                 tr_context = ctx, tr_endCall = False\<rparr>
        \<and> getAppointment (after ''modify_appointment'' args ctx s) (arg_appointment_id args) =
            Some (a\<lparr>appt_date := d, appt_time := t, appt_status := ''scheduled''\<rparr>))"
proof -
  let ?occupied = "\<exists>b \<in> set (appointments s). is_active b \<and> appt_date b = d \<and> appt_time b = t"
  let ?other = "\<exists>b \<in> set (appointments s).
      b \<noteq> a \<and> is_active b \<and> appt_date b = d \<and> appt_time b = t"
  have exec: "executeToolCall ''modify_appointment'' args ctx s = tool_modify_appointment args ctx s"
    by (simp add: executeToolCall_def)
  note run = modify_run [OF assms(1-4), folded assms(5,6)]
  have conflict: "executeToolCall ''modify_appointment'' args ctx s =
            (Inr \<lparr>tr_result = conflict_text d t, tr_context = ctx, tr_endCall = False\<rparr>, s)"
    if "(d, t) \<noteq> (appt_date a, appt_time a)" ?occupied
    using that run by (simp add: exec returns_def Let_def)
  have mem: "a \<in> set (appointments s)"
    using assms(3) unfolding getAppointment_def by (auto simp: find_Some_iff)
  have key: "Some (appt_id a) = arg_appointment_id args"
    using assms(3) by (rule getAppointment_key)
  show ?thesis
  proof (intro conjI impI)
    assume "?other \<and> (d, t) \<noteq> (appt_date a, appt_time a)"
    then have "(d, t) \<noteq> (appt_date a, appt_time a)" ?occupied by blast+
    then show "executeToolCall ''modify_appointment'' args ctx s =
            (Inr \<lparr>tr_result = conflict_text d t, tr_context = ctx, tr_endCall = False\<rparr>, s)"
      by (rule conflict)
  next
    assume h: "is_active a \<and> no_double_booking s \<and> ?other"
    then obtain b where b: "b \<in> set (appointments s)" "b \<noteq> a" "is_active b"
        "appt_date b = d" "appt_time b = t"
      by blast
    have "(d, t) \<noteq> (appt_date a, appt_time a)"
    proof
      assume "(d, t) = (appt_date a, appt_time a)"
      then have "appt_date a = appt_date b" "appt_time a = appt_time b" using b by simp_all
      from two_active_same_slot [OF _ mem b(1) _ b(3) this] h b(2) show False by simp
    qed
    moreover have ?occupied using b by blast
    ultimately show "executeToolCall ''modify_appointment'' args ctx s =
            (Inr \<lparr>tr_result = conflict_text d t, tr_context = ctx, tr_endCall = False\<rparr>, s)"
      by (rule conflict)
  next
    assume free: "\<not> ?other"
    have ok: "(d, t) = (appt_date a, appt_time a) \<or> \<not> ?occupied"
    proof (rule disjCI)
      assume "\<not> \<not> ?occupied"
      then obtain b where b: "b \<in> set (appointments s)" "is_active b"
          "appt_date b = d" "appt_time b = t"
        by blast
      with free have "b = a" by blast
      with b show "(d, t) = (appt_date a, appt_time a)" by simp
    qed
    then have r: "tool_modify_appointment args ctx s =
        returns (rescheduled_text (arg_appointment_id args) d t) ctx
             (updateAppointment (arg_appointment_id args)
                \<lparr>patch_date = Some d, patch_time = Some t, patch_status = Some ''scheduled''\<rparr> s)"
      using run by (auto simp: Let_def)
    show "fst (executeToolCall ''modify_appointment'' args ctx s) =
            Inr \<lparr>tr_result = rescheduled_text (arg_appointment_id args) d t,
                 tr_context = ctx, tr_endCall = False\<rparr>"
      by (simp add: exec r returns_def)
    show "getAppointment (after ''modify_appointment'' args ctx s) (arg_appointment_id args) =
            Some (a\<lparr>appt_date := d, appt_time := t, appt_status := ''scheduled''\<rparr>)"
      using assms(3) key
      by (simp add: after_def exec r returns_def getAppointment_after_update apply_patch_def)
  qed
qed

text \<open>
  On the store with Alice's appointment 1 and Bob's appointment 2, both active: moving
  appointment 1 to Bob's slot is refused and changes nothing; modifying it onto its own
  slot succeeds.
\<close>

theorem modify_appointment_outcomes_witness:
  "executeToolCall ''modify_appointment''
       (modify_args 1 (Some ''2026-01-29'') (Some ''11:00 AM'')) (caller 1) two_bookings =
     (Inr \<lparr>tr_result = conflict_text ''2026-01-29'' ''11:00 AM'', tr_context = caller 1,
            tr_endCall = False\<rparr>, two_bookings)
   \<and> fst (executeToolCall ''modify_appointment''
       (modify_args 1 None (Some ''09:00 AM'')) (caller 1) two_bookings) =
       Inr \<lparr>tr_result =
              rescheduled_text (arg_appointment_id (modify_args 1 None (Some ''09:00 AM'')))
                ''2026-01-28'' ''09:00 AM'',
            tr_context = caller 1, tr_endCall = False\<rparr>
   \<and> getAppointment (after ''modify_appointment'' (modify_args 1 None (Some ''09:00 AM''))
         (caller 1) two_bookings) (arg_appointment_id (modify_args 1 None (Some ''09:00 AM''))) =
       Some (appt1\<lparr>appt_date := ''2026-01-28'', appt_time := ''09:00 AM'',
                    appt_status := ''scheduled''\<rparr>)"
proof -
  let ?move = "modify_args 1 (Some ''2026-01-29'') (Some ''11:00 AM'')"
  let ?stay = "modify_args 1 None (Some ''09:00 AM'')"
  have who: "truthy_num (ctx_userId (caller 1))" by code_simp
  have own: "Some (appt_userId appt1) = ctx_userId (caller 1)" by code_simp
  have m1: "truthy (arg_new_date ?move) \<or> truthy (arg_new_time ?move)" by code_simp
  have m2: "getAppointment two_bookings (arg_appointment_id ?move) = Some appt1" by code_simp
  have m3: "''2026-01-29'' = or_default (arg_new_date ?move) (appt_date appt1)" by code_simp
  have m4: "''11:00 AM'' = or_default (arg_new_time ?move) (appt_time appt1)" by code_simp
  have m5: "(\<exists>b \<in> set (appointments two_bookings).
          b \<noteq> appt1 \<and> is_active b \<and> appt_date b = ''2026-01-29'' \<and> appt_time b = ''11:00 AM'')
      \<and> (''2026-01-29'', ''11:00 AM'') \<noteq> (appt_date appt1, appt_time appt1)"
    by code_simp
  have s1: "truthy (arg_new_date ?stay) \<or> truthy (arg_new_time ?stay)" by code_simp
  have s2: "getAppointment two_bookings (arg_appointment_id ?stay) = Some appt1" by code_simp
  have s3: "''2026-01-28'' = or_default (arg_new_date ?stay) (appt_date appt1)" by code_simp
  have s4: "''09:00 AM'' = or_default (arg_new_time ?stay) (appt_time appt1)" by code_simp
  have s5: "\<not> (\<exists>b \<in> set (appointments two_bookings).
          b \<noteq> appt1 \<and> is_active b \<and> appt_date b = ''2026-01-28'' \<and> appt_time b = ''09:00 AM'')"
    by code_simp
  note moved = modify_appointment_outcomes [OF who m1 m2 own m3 m4, THEN conjunct1, THEN mp, OF m5]
  note stayed = modify_appointment_outcomes [OF who s1 s2 own s3 s4, THEN conjunct2, THEN conjunct2,
      THEN mp, OF s5]
  from moved stayed show ?thesis by (intro conjI) (erule conjunct1 conjunct2 | assumption)+
qed

text \<open>
  C4 as stated fails. Appointment 1 is Alice's and cancelled; Bob's appointment 2 is
  active on the slot appointment 1 still names. Alice modifies appointment 1 with
  \<open>new_time\<close> its own time: the target is held by a different active appointment, yet the
  call returns the rescheduled text, not the conflict text, and the appointment's status
  changes from \<open>cancelled\<close> to \<open>scheduled\<close>.
\<close>

theorem modify_revives_onto_occupied_slot:
  "getAppointment rebooked (Some 1) = Some cancelled1
   \<and> appt_userId cancelled1 = 1
   \<and> appt2 \<in> set (appointments rebooked) \<and> appt2 \<noteq> cancelled1 \<and> is_active appt2
   \<and> appt_date appt2 = or_default None (appt_date cancelled1)
   \<and> appt_time appt2 = or_default (Some ''09:00 AM'') (appt_time cancelled1)
   \<and> executeToolCall ''modify_appointment'' (modify_args 1 None (Some ''09:00 AM''))
         (caller 1) rebooked =
       (Inr \<lparr>tr_result = rescheduled_text (Some 1) ''2026-01-28'' ''09:00 AM'',
              tr_context = caller 1, tr_endCall = False\<rparr>, double_booked)
   \<and> rescheduled_text (Some 1) ''2026-01-28'' ''09:00 AM'' \<noteq>
       conflict_text ''2026-01-28'' ''09:00 AM''
   \<and> appt_status cancelled1 = ''cancelled''
   \<and> getAppointment double_booked (Some 1) = Some appt1
   \<and> appt_status appt1 = ''scheduled''"
  by code_simp

subsection \<open>The double-booking guard\<close>

text \<open>
  Booking and cancelling keep the guard, and so does modifying an appointment that is not
  cancelled (in a store with distinct ids). Of two bookings of one free slot of the
  catalog, run one after the other, the first creates an appointment and the second
  returns the conflict text.
\<close>

lemma getBookedSlots_append:
  "getBookedSlots (s\<lparr>appointments := appointments s @ [a], nextAppointmentId := k\<rparr>) =
     getBookedSlots s @ (if appt_status a \<noteq> ''cancelled'' then [(appt_date a, appt_time a)] else [])"
  by (simp add: getBookedSlots_def)

lemma book_keeps_guard:
  assumes "no_double_booking s"
  shows "no_double_booking (after ''book_appointment'' args ctx s)"
proof -
  have exec: "after ''book_appointment'' args ctx s = snd (tool_book_appointment args ctx s)"
    by (simp add: after_def executeToolCall_def)
  consider (anon) "ctx_userId ctx = None \<or> ctx_userId ctx = Some 0"
    | (taken) uid where "ctx_userId ctx = Some uid" "uid \<noteq> 0"
        "some_slot (arg_date args) (arg_time args) (getBookedSlots s)"
    | (nocat) uid where "ctx_userId ctx = Some uid" "uid \<noteq> 0"
        "\<not> some_slot (arg_date args) (arg_time args) (getBookedSlots s)"
        "\<not> some_slot (arg_date args) (arg_time args) availableSlots"
    | (ok) uid where "ctx_userId ctx = Some uid" "uid \<noteq> 0"
        "\<not> some_slot (arg_date args) (arg_time args) (getBookedSlots s)"
        "some_slot (arg_date args) (arg_time args) availableSlots"
    by (cases "ctx_userId ctx") auto
  then show ?thesis
  proof cases
    case anon
    from book_not_identified [OF this] assms show ?thesis by (simp add: exec returns_def)
  next
    case taken
    from book_taken [OF this] assms show ?thesis by (simp add: exec returns_def)
  next
    case nocat
    from book_not_in_catalog [OF this] assms show ?thesis by (simp add: exec returns_def)
  next
    case ok
    from book_success [OF ok] obtain d t where
      dt: "arg_date args = Some d" "arg_time args = Some t" and
      run: "tool_book_appointment args ctx s =
             returns (booked_text d t (nextAppointmentId s) (arg_description args)) ctx
               (s\<lparr>appointments := appointments s @
                     [\<lparr>appt_id = nextAppointmentId s, appt_userId = uid, appt_date = d,
                       appt_time = t, appt_description = arg_description args,
                       appt_status = ''scheduled''\<rparr>],
                   nextAppointmentId := Suc (nextAppointmentId s)\<rparr>)"
      by blast
    from ok(3) dt have "(d, t) \<notin> set (getBookedSlots s)"
      by (auto simp: some_slot_iff)
    with assms show ?thesis
      by (simp add: exec run returns_def no_double_booking_def getBookedSlots_append)
  qed
qed

lemma getBookedSlots_after_cancel:
  "getBookedSlots (snd (cancelAppointment i s)) =
     map (\<lambda>a. (appt_date a, appt_time a))
       (filter (\<lambda>a. Some (appt_id a) \<noteq> i)
          (filter (\<lambda>a. appt_status a \<noteq> ''cancelled'') (appointments s)))"
proof -
  have "map (\<lambda>a. (appt_date a, appt_time a))
          (filter (\<lambda>a. appt_status a \<noteq> ''cancelled'')
             (map (\<lambda>a. if Some (appt_id a) = i then a\<lparr>appt_status := ''cancelled''\<rparr> else a) xs)) =
        map (\<lambda>a. (appt_date a, appt_time a))
          (filter (\<lambda>a. Some (appt_id a) \<noteq> i) (filter (\<lambda>a. appt_status a \<noteq> ''cancelled'') xs))"
    for xs
    by (induction xs) auto
  then show ?thesis
    by (simp add: getBookedSlots_def cancelAppointment_def Let_def)
qed

lemma cancel_keeps_guard:
  assumes "no_double_booking s"
  shows "no_double_booking (after ''cancel_appointment'' args ctx s)"
proof -
  have "snd (tool_cancel_appointment args ctx s) = s \<or>
        snd (tool_cancel_appointment args ctx s) = snd (cancelAppointment (arg_appointment_id args) s)"
    by (simp add: tool_cancel_appointment_def Let_def returns_def split: option.split)
  moreover have "no_double_booking (snd (cancelAppointment i s))" for i
  proof -
    from assms have "distinct (map (\<lambda>a. (appt_date a, appt_time a))
        (filter (\<lambda>a. appt_status a \<noteq> ''cancelled'') (appointments s)))"
      by (simp add: no_double_booking_def getBookedSlots_def)
    then have "distinct (map (\<lambda>a. (appt_date a, appt_time a))
        (filter (\<lambda>a. Some (appt_id a) \<noteq> i)
           (filter (\<lambda>a. appt_status a \<noteq> ''cancelled'') (appointments s))))"
      by (rule distinct_map_filter)
    then show ?thesis
      by (simp only: no_double_booking_def getBookedSlots_after_cancel)
  qed
  ultimately show ?thesis
    using assms by (auto simp: after_def executeToolCall_def)
qed

lemma second_booking_conflicts:
  assumes first: "truthy_num (ctx_userId ctx1)" and second: "truthy_num (ctx_userId ctx2)"
    and free: "\<not> some_slot (Some d) (Some t) (getBookedSlots s)"
    and slot: "(d, t) \<in> set availableSlots"
    and args1: "arg_date args1 = Some d" "arg_time args1 = Some t"
    and args2: "arg_date args2 = Some d" "arg_time args2 = Some t"
  shows "length (appointments (after ''book_appointment'' args1 ctx1 s)) = Suc (length (appointments s))"
    and "executeToolCall ''book_appointment'' args2 ctx2 (after ''book_appointment'' args1 ctx1 s) =
           returns (slot_taken_text (Some d) (Some t)) ctx2 (after ''book_appointment'' args1 ctx1 s)"
proof -
  from first obtain u1 where u1: "ctx_userId ctx1 = Some u1" "u1 \<noteq> 0"
    by (auto simp: truthy_num_def split: option.splits)
  from second obtain u2 where u2: "ctx_userId ctx2 = Some u2" "u2 \<noteq> 0"
    by (auto simp: truthy_num_def split: option.splits)
  have cat: "some_slot (arg_date args1) (arg_time args1) availableSlots"
    using slot args1 by (auto simp: some_slot_iff)
  have free1: "\<not> some_slot (arg_date args1) (arg_time args1) (getBookedSlots s)"
    using free args1 by simp
  let ?s1 = "s\<lparr>appointments := appointments s @
                     [\<lparr>appt_id = nextAppointmentId s, appt_userId = u1, appt_date = d,
                       appt_time = t, appt_description = arg_description args1,
                       appt_status = ''scheduled''\<rparr>],
                   nextAppointmentId := Suc (nextAppointmentId s)\<rparr>"
  from book_success [OF u1 free1 cat] args1
  have run: "tool_book_appointment args1 ctx1 s =
      returns (booked_text d t (nextAppointmentId s) (arg_description args1)) ctx1 ?s1"
    by auto
  then have aft: "after ''book_appointment'' args1 ctx1 s = ?s1"
    by (simp add: after_def executeToolCall_def returns_def)
  show "length (appointments (after ''book_appointment'' args1 ctx1 s)) = Suc (length (appointments s))"
    by (simp add: aft)
  have "some_slot (arg_date args2) (arg_time args2) (getBookedSlots ?s1)"
    by (simp add: args2 some_slot_iff getBookedSlots_append)
  from book_taken [OF u2 this]
  show "executeToolCall ''book_appointment'' args2 ctx2 (after ''book_appointment'' args1 ctx1 s) =
           returns (slot_taken_text (Some d) (Some t)) ctx2 (after ''book_appointment'' args1 ctx1 s)"
    by (simp add: aft executeToolCall_def args2)
qed

lemma modify_branches:
  obtains (skip) "snd (tool_modify_appointment args ctx s) = s"
  | (go) a where "truthy_num (ctx_userId ctx)"
      "truthy (arg_new_date args) \<or> truthy (arg_new_time args)"
      "getAppointment s (arg_appointment_id args) = Some a"
      "Some (appt_userId a) = ctx_userId ctx"
proof (cases "truthy_num (ctx_userId ctx) \<and> (truthy (arg_new_date args) \<or> truthy (arg_new_time args))")
  case False
  then have "snd (tool_modify_appointment args ctx s) = s"
    by (auto simp: tool_modify_appointment_def Let_def returns_def)
  then show ?thesis by (rule skip)
next
  case True
  show ?thesis
  proof (cases "getAppointment s (arg_appointment_id args)")
    case None
    with True have "snd (tool_modify_appointment args ctx s) = s"
      by (auto simp: tool_modify_appointment_def Let_def returns_def)
    then show ?thesis by (rule skip)
  next
    case (Some a)
    show ?thesis
    proof (cases "Some (appt_userId a) = ctx_userId ctx")
      case False
      with True Some have "snd (tool_modify_appointment args ctx s) = s"
        by (auto simp: tool_modify_appointment_def Let_def returns_def)
      then show ?thesis by (rule skip)
    next
      case owner: True
      from True Some owner show ?thesis by (intro go [of a]) simp_all
    qed
  qed
qed

lemma update_unique_row:
  assumes "distinct (map appt_id (xs @ a # ys))"
  shows "map (\<lambda>b. if Some (appt_id b) = Some (appt_id a) then f b else b) (xs @ a # ys) =
           xs @ f a # ys"
proof -
  have "\<forall>b \<in> set xs \<union> set ys. appt_id b \<noteq> appt_id a"
    using assms by (force simp: image_iff)
  then have "map (\<lambda>b. if Some (appt_id b) = Some (appt_id a) then f b else b) xs = xs"
    and "map (\<lambda>b. if Some (appt_id b) = Some (appt_id a) then f b else b) ys = ys"
    by (simp_all add: map_idI)
  then show ?thesis by simp
qed

lemma modify_active_keeps_guard:
  assumes guard: "no_double_booking s"
    and ids: "distinct (map appt_id (appointments s))"
    and active: "\<forall>a. getAppointment s (arg_appointment_id args) = Some a \<longrightarrow> is_active a"
  shows "no_double_booking (after ''modify_appointment'' args ctx s)"
proof -
  have exec: "after ''modify_appointment'' args ctx s = snd (tool_modify_appointment args ctx s)"
    by (simp add: after_def executeToolCall_def)
  show ?thesis
  proof (cases rule: modify_branches [of args ctx s])
    case skip
    with guard show ?thesis by (simp add: exec)
  next
    case (go a)
    let ?d = "or_default (arg_new_date args) (appt_date a)"
    let ?t = "or_default (arg_new_time args) (appt_time a)"
    let ?slot = "\<lambda>a. (appt_date a, appt_time a)"
    let ?act = "\<lambda>a. appt_status a \<noteq> ''cancelled''"
    let ?p = "\<lparr>patch_date = Some ?d, patch_time = Some ?t, patch_status = Some ''scheduled''\<rparr>"
    note run = modify_run [OF go]
    show ?thesis
    proof (cases "(?d, ?t) \<noteq> (appt_date a, appt_time a) \<and>
         (\<exists>b \<in> set (appointments s). is_active b \<and> appt_date b = ?d \<and> appt_time b = ?t)")
      case True
      with run guard show ?thesis by (simp add: exec Let_def returns_def)
    next
      case False
      with run have s': "snd (tool_modify_appointment args ctx s) =
          updateAppointment (arg_appointment_id args) ?p s"
        by (auto simp: Let_def returns_def)
      have key: "arg_appointment_id args = Some (appt_id a)"
        using getAppointment_key [OF go(3)] by simp
      have "a \<in> set (appointments s)"
        using go(3) unfolding getAppointment_def by (auto simp: find_Some_iff)
      then obtain xs ys where split: "appointments s = xs @ a # ys"
        by (auto dest: split_list)
      have a_act: "?act a" using active go(3) by (simp add: is_active_def)
      have new: "appointments (updateAppointment (arg_appointment_id args) ?p s) =
          xs @ apply_patch ?p a # ys"
        using update_unique_row [of xs a ys "apply_patch ?p"] ids
        by (simp add: updateAppointment_def key split)
      have old_slots: "getBookedSlots s =
          map ?slot (filter ?act xs) @ (appt_date a, appt_time a) # map ?slot (filter ?act ys)"
        using a_act by (simp add: getBookedSlots_def split)
      have new_slots: "getBookedSlots (updateAppointment (arg_appointment_id args) ?p s) =
          map ?slot (filter ?act xs) @ (?d, ?t) # map ?slot (filter ?act ys)"
        by (simp add: getBookedSlots_def new apply_patch_def)
      from False have "(?d, ?t) = (appt_date a, appt_time a) \<or> (?d, ?t) \<notin> set (getBookedSlots s)"
        by (auto simp: getBookedSlots_def is_active_def)
      then have "distinct (map ?slot (filter ?act xs) @ (?d, ?t) # map ?slot (filter ?act ys))"
      proof
        assume "(?d, ?t) = (appt_date a, appt_time a)"
        with guard old_slots show ?thesis by (simp add: no_double_booking_def)
      next
        assume "(?d, ?t) \<notin> set (getBookedSlots s)"
        with guard show ?thesis
          unfolding no_double_booking_def old_slots by auto
      qed
      then show ?thesis
        by (simp add: exec s' no_double_booking_def new_slots)
    qed
  qed
qed

text \<open>
  C1. The guard is not an invariant of the three tools. From a store with no
  appointment: Alice books a slot (appointment 1), Alice cancels appointment 1, Bob books
  the same slot (appointment 2); no slot is double-booked so far. Then Alice modifies
  appointment 1, giving its own time as \<open>new_time\<close>: the check excludes every booked slot
  equal to the appointment's own date and time, so Bob's booking is not seen, and the
  update resets appointment 1 to \<open>scheduled\<close>. The slot now has two active appointments.
\<close>

theorem double_booking_reachable:
  "no_double_booking two_users
   \<and> run_calls [(''book_appointment'', book_args ''2026-01-28'' ''09:00 AM'', caller 1),
                (''cancel_appointment'', cancel_args 1, caller 1),
                (''book_appointment'', book_args ''2026-01-28'' ''09:00 AM'', caller 2)]
        two_users = rebooked
   \<and> no_double_booking rebooked
   \<and> run_calls [(''modify_appointment'', modify_args 1 None (Some ''09:00 AM''), caller 1)]
        rebooked = double_booked
   \<and> getBookedSlots double_booked =
        [(''2026-01-28'', ''09:00 AM''), (''2026-01-28'', ''09:00 AM'')]
   \<and> \<not> no_double_booking double_booked"
  by code_simp

subsection \<open>The call summarizer finalizes\<close>

lemma applyExtraction_steps:
  assumes "resolveUser user0
             (or_else (map_option strip_non_digits (ex_phoneNumber ex)) (sessionPhone session))
             (or_else (ex_userName ex) (userNameOf user0)) s = (user, s1)"
    and "(case user of
            None \<Rightarrow> ([], 0, s1)
          | Some u \<Rightarrow> createRequested (user_id u) (ex_appointmentRequests ex)
                        (getAppointmentsByUser s1 (user_id u)) 0 s1) = (existingAppts, n, s2)"
    and "s3 = (case user of
                 None \<Rightarrow> s2
               | Some u \<Rightarrow> applyCancellations (getAppointmentsByUser s2 (user_id u))
                             (ex_cancellationRequests ex) s2)"
  shows "applyExtraction sessionId transcript session user0 ex s =
     (\<lparr>sr_summary =
          or_default (ex_summary ex) ''Call completed.'' @
          (if 0 < n
           then '' '' @ show_nat n @
                '' appointment(s) were automatically created from this conversation.''
           else []),
        sr_appointments = user_views user s3, sr_userPreferences = ex_userPreferences ex,
        sr_userName = or_undefined (or_else (ex_userName ex) (userNameOf user0)),
        sr_phoneNumber =
          or_undefined (or_else (map_option strip_non_digits (ex_phoneNumber ex))
                          (sessionPhone session)),
        sr_newAppointmentsCreated = Some n\<rparr>,
      endCallSession sessionId
        (or_default (ex_summary ex) ''Call completed.'' @
         (if 0 < n then '' ('' @ show_nat n @ '' appointment(s) created)'' else []))
        (user_views user s3) (ex_userPreferences ex) transcript s3)"
  using assms by (simp add: applyExtraction_def Let_def)

lemma callSessions_resolveUser:
  "callSessions (snd (resolveUser user phone nm s)) = callSessions s"
  by (simp add: resolveUser_def createUser_def updateUser_def Let_def
      split: option.split prod.split)

lemma appointments_resolveUser:
  "appointments (snd (resolveUser user phone nm s)) = appointments s"
  by (simp add: resolveUser_def createUser_def updateUser_def Let_def
      split: option.split prod.split)

lemma resolveUser_tables:
  assumes "resolveUser user phone nm s = (user', s1)"
  shows "callSessions s1 = callSessions s" and "appointments s1 = appointments s"
  using assms callSessions_resolveUser [of user phone nm s]
    appointments_resolveUser [of user phone nm s]
  by simp_all





lemma createRequested_nothing:
  "createRequested uid [] existingAppts n s = (existingAppts, n, s)"
  by simp



lemma fallback_tables:
  "appointments (snd (fallback sid tr session user s)) = appointments s \<and>
   users (snd (fallback sid tr session user s)) = users s"
  by (simp add: fallback_def Let_def endCallSession_def)


lemma unparsable_run:
  assumes "resolveUser user0 (sessionPhone session) (userNameOf user0) s = (user, s1)"
  shows "snd (applyExtraction sid tr session user0 unparsable_default s) =
           endCallSession sid ''Call completed.'' (user_views user s1) [] tr s1"
proof -
  let ?ex = unparsable_default
  have r: "resolveUser user0
             (or_else (map_option strip_non_digits (ex_phoneNumber ?ex)) (sessionPhone session))
             (or_else (ex_userName ?ex) (userNameOf user0)) s = (user, s1)"
    using assms by (simp add: unparsable_default_def or_else_def truthy_def)
  have l: "(case user of
            None \<Rightarrow> ([], 0, s1)
          | Some u \<Rightarrow> createRequested (user_id u) (ex_appointmentRequests ?ex)
                        (getAppointmentsByUser s1 (user_id u)) 0 s1) =
           (case user of None \<Rightarrow> [] | Some u \<Rightarrow> getAppointmentsByUser s1 (user_id u), 0, s1)"
    by (cases user) (simp_all add: unparsable_default_def)
  have s3: "s1 = (case user of
                 None \<Rightarrow> s1
               | Some u \<Rightarrow> applyCancellations (getAppointmentsByUser s1 (user_id u))
                             (ex_cancellationRequests ?ex) s1)"
    by (cases user) (simp_all add: unparsable_default_def)
  show ?thesis
    unfolding applyExtraction_steps [OF r l s3]
    by (simp add: unparsable_default_def or_default_def)
qed






subsection \<open>What the call summarizer does not check\<close>

text \<open>
  C10. The summarizer's appointments are checked against the resolved user's own
  appointments only. Bob holds 2026-01-28 at 09:00 AM; in Alice's call the extraction
  asks for that slot and for 2026-03-15 at 7:45 PM, which is not in the catalog. Both
  appointments are created for Alice: the first on the slot of Bob's active appointment,
  so that the store is double-booked, the second outside the catalog.
\<close>

theorem summarizer_books_taken_and_uncatalogued_slots:
  "appointments bob_holds_slot = [appt2\<lparr>appt_id := 1\<rparr>]
   \<and> is_active (appt2\<lparr>appt_id := 1\<rparr>) \<and> appt_userId (appt2\<lparr>appt_id := 1\<rparr>) = 2
   \<and> sessionUser (getCallSession bob_holds_slot 1) bob_holds_slot = Some alice
   \<and> appointments (snd (generateCallSummary 1 None (Parsed two_requests) bob_holds_slot)) =
       [appt2\<lparr>appt_id := 1\<rparr>,
        \<lparr>appt_id = 2, appt_userId = 1, appt_date = ''2026-01-28'', appt_time = ''09:00 AM'',
         appt_description = Some default_description, appt_status = ''pending''\<rparr>,
        \<lparr>appt_id = 3, appt_userId = 1, appt_date = ''2026-03-15'', appt_time = ''7:45 PM'',
         appt_description = Some ''consultation'', appt_status = ''pending''\<rparr>]
   \<and> sr_newAppointmentsCreated
         (fst (generateCallSummary 1 None (Parsed two_requests) bob_holds_slot)) = Some 2
   \<and> appt_date (appt2\<lparr>appt_id := 1\<rparr>) = ''2026-01-28''
   \<and> appt_time (appt2\<lparr>appt_id := 1\<rparr>) = ''09:00 AM''
   \<and> \<not> no_double_booking (snd (generateCallSummary 1 None (Parsed two_requests) bob_holds_slot))
   \<and> (''2026-03-15'', ''7:45 PM'') \<notin> set availableSlots"
  by code_simp

subsection \<open>Running the call summarizer twice\<close>

lemma isDuplicate_set:
  "isDuplicate d t xs \<longleftrightarrow>
     (\<exists>a \<in> set xs. appt_date a = d \<and> normalizeTime (appt_time a) = normalizeTime t \<and>
        appt_status a \<noteq> ''cancelled'')"
  by (simp add: isDuplicate_def list_ex_iff)

lemma satisfied_mono: "satisfied xs r \<Longrightarrow> set xs \<subseteq> set ys \<Longrightarrow> satisfied ys r"
  unfolding satisfied_def isDuplicate_set by blast

lemma createRequested_step:
  "createRequested uid (r # rs) existingAppts n s =
     (if satisfied existingAppts r
      then createRequested uid rs existingAppts n s
      else createRequested uid rs
             (existingAppts @
              [\<lparr>appt_id = nextAppointmentId s, appt_userId = uid,
                appt_date = show_str (req_date r), appt_time = show_str (req_time r),
                appt_description = Some (or_default (req_description r) default_description),
                appt_status = ''pending''\<rparr>])
             (Suc n)
             (s\<lparr>appointments := appointments s @
                   [\<lparr>appt_id = nextAppointmentId s, appt_userId = uid,
                     appt_date = show_str (req_date r), appt_time = show_str (req_time r),
                     appt_description = Some (or_default (req_description r) default_description),
                     appt_status = ''pending''\<rparr>],
                 nextAppointmentId := Suc (nextAppointmentId s)\<rparr>))"
  by (auto simp: satisfied_def request_present_def createAppointment_def Let_def)

declare createRequested.simps(2) [simp del]

lemma createRequested_noop:
  "\<forall>r \<in> set rs. satisfied existingAppts r \<Longrightarrow>
     createRequested uid rs existingAppts n s = (existingAppts, n, s)"
  by (induction rs) (auto simp: createRequested_step)

lemma createRequested_shape:
  "createRequested uid rs existingAppts n s = (existingAppts', n', s') \<Longrightarrow>
     \<exists>new. existingAppts' = existingAppts @ new
        \<and> s' = s\<lparr>appointments := appointments s @ new,
                  nextAppointmentId := nextAppointmentId s + length new\<rparr>
        \<and> n' = n + length new
        \<and> list_all (\<lambda>a. appt_userId a = uid \<and> appt_status a = ''pending'') new"
proof (induction rs arbitrary: existingAppts n s)
  case Nil
  then show ?case by (intro exI [of _ "[]"]) simp
next
  case (Cons r rs)
  show ?case
  proof (cases "satisfied existingAppts r")
    case True
    with Cons.prems have "createRequested uid rs existingAppts n s = (existingAppts', n', s')"
      by (simp add: createRequested_step)
    from Cons.IH [OF this] show ?thesis .
  next
    case False
    let ?a = "\<lparr>appt_id = nextAppointmentId s, appt_userId = uid,
                appt_date = show_str (req_date r), appt_time = show_str (req_time r),
                appt_description = Some (or_default (req_description r) default_description),
                appt_status = ''pending''\<rparr>"
    let ?s = "s\<lparr>appointments := appointments s @ [?a],
                 nextAppointmentId := Suc (nextAppointmentId s)\<rparr>"
    from False Cons.prems
    have "createRequested uid rs (existingAppts @ [?a]) (Suc n) ?s = (existingAppts', n', s')"
      by (simp add: createRequested_step)
    from Cons.IH [OF this] obtain new where new:
      "existingAppts' = (existingAppts @ [?a]) @ new"
      "s' = ?s\<lparr>appointments := appointments ?s @ new,
                  nextAppointmentId := nextAppointmentId ?s + length new\<rparr>"
      "n' = Suc n + length new"
      "list_all (\<lambda>a. appt_userId a = uid \<and> appt_status a = ''pending'') new"
      by blast
    show ?thesis
      by (intro exI [of _ "?a # new"] conjI) (use new in simp_all)
  qed
qed

lemma createRequested_fresh_ids:
  "createRequested uid rs existingAppts n s = (existingAppts', n', s') \<Longrightarrow>
     fresh_ids s \<Longrightarrow> fresh_ids s'"
proof (induction rs arbitrary: existingAppts n s)
  case Nil
  then show ?case by simp
next
  case (Cons r rs)
  let ?a = "\<lparr>appt_id = nextAppointmentId s, appt_userId = uid,
              appt_date = show_str (req_date r), appt_time = show_str (req_time r),
              appt_description = Some (or_default (req_description r) default_description),
              appt_status = ''pending''\<rparr>"
  let ?s = "s\<lparr>appointments := appointments s @ [?a],
               nextAppointmentId := Suc (nextAppointmentId s)\<rparr>"
  show ?case
  proof (cases "satisfied existingAppts r")
    case True
    with Cons.prems(1) have "createRequested uid rs existingAppts n s = (existingAppts', n', s')"
      by (simp add: createRequested_step)
    from Cons.IH [OF this Cons.prems(2)] show ?thesis .
  next
    case False
    with Cons.prems(1)
    have run: "createRequested uid rs (existingAppts @ [?a]) (Suc n) ?s = (existingAppts', n', s')"
      by (simp add: createRequested_step)
    have "fresh_ids ?s"
      using Cons.prems(2) by (auto simp: fresh_ids_def list_all_iff less_Suc_eq)
    from Cons.IH [OF run this] show ?thesis .
  qed
qed

lemma createRequested_satisfies:
  "createRequested uid rs existingAppts n s = (existingAppts', n', s') \<Longrightarrow>
     \<forall>r \<in> set rs. satisfied existingAppts' r"
proof (induction rs arbitrary: existingAppts n s)
  case Nil
  then show ?case by simp
next
  case (Cons r rs)
  let ?a = "\<lparr>appt_id = nextAppointmentId s, appt_userId = uid,
              appt_date = show_str (req_date r), appt_time = show_str (req_time r),
              appt_description = Some (or_default (req_description r) default_description),
              appt_status = ''pending''\<rparr>"
  let ?s = "s\<lparr>appointments := appointments s @ [?a],
               nextAppointmentId := Suc (nextAppointmentId s)\<rparr>"
  show ?case
  proof (cases "satisfied existingAppts r")
    case True
    with Cons.prems have run: "createRequested uid rs existingAppts n s = (existingAppts', n', s')"
      by (simp add: createRequested_step)
    from createRequested_shape [OF run] have "set existingAppts \<subseteq> set existingAppts'" by auto
    with True have "satisfied existingAppts' r" by (rule satisfied_mono)
    with Cons.IH [OF run] show ?thesis by simp
  next
    case False
    from False Cons.prems
    have run: "createRequested uid rs (existingAppts @ [?a]) (Suc n) ?s = (existingAppts', n', s')"
      by (simp add: createRequested_step)
    from createRequested_shape [OF run] have sub: "set (existingAppts @ [?a]) \<subseteq> set existingAppts'"
      by auto
    have "satisfied (existingAppts @ [?a]) r"
      by (simp add: satisfied_def isDuplicate_set)
    then have "satisfied existingAppts' r" using sub by (rule satisfied_mono)
    with Cons.IH [OF run] show ?thesis by simp
  qed
qed

lemma cancelled_ids_Nil: "cancelled_ids ua [] = []"
  by (simp add: cancelled_ids_def map_filter_simps)

lemma cancelled_ids_Cons:
  "cancelled_ids ua (c # cs) =
     (case matchingAppt c ua of None \<Rightarrow> cancelled_ids ua cs
      | Some m \<Rightarrow> appt_id m # cancelled_ids ua cs)"
  by (simp add: cancelled_ids_def map_filter_simps split: option.split)

lemma apply_cancel_patch: "apply_patch cancel_patch a = a\<lparr>appt_status := ''cancelled''\<rparr>"
  by (simp add: apply_patch_def cancel_patch_def)

lemma applyCancellations_appointments:
  "applyCancellations ua cs s =
     s\<lparr>appointments :=
         map (\<lambda>a. if appt_id a \<in> set (cancelled_ids ua cs)
                  then a\<lparr>appt_status := ''cancelled''\<rparr> else a) (appointments s)\<rparr>"
proof (induction cs arbitrary: s)
  case Nil
  then show ?case by (simp add: cancelled_ids_Nil)
next
  case (Cons c cs)
  show ?case
  proof (cases "matchingAppt c ua")
    case None
    then show ?thesis by (simp add: Cons.IH cancelled_ids_Cons)
  next
    case (Some m)
    have "map (\<lambda>a. if appt_id a \<in> set (cancelled_ids ua cs)
                  then a\<lparr>appt_status := ''cancelled''\<rparr> else a)
            (map (\<lambda>a. if Some (appt_id a) = Some (appt_id m) then apply_patch cancel_patch a else a) xs) =
          map (\<lambda>a. if appt_id a \<in> set (appt_id m # cancelled_ids ua cs)
                  then a\<lparr>appt_status := ''cancelled''\<rparr> else a) xs" for xs
      by (induction xs) (simp_all add: apply_cancel_patch)
    then show ?thesis
      by (simp add: Some Cons.IH cancelled_ids_Cons updateAppointment_def)
  qed
qed

lemma matchingAppt_Some:
  "matchingAppt c ua = Some m \<Longrightarrow>
     m \<in> set ua \<and> Some (appt_date m) = creq_date c \<and>
     normalizeTime (appt_time m) = normalizeTime (or_default (creq_time c) [])"
  unfolding matchingAppt_def by (auto simp: find_Some_iff)

lemma cancelled_ids_mem:
  "i \<in> set (cancelled_ids ua cs) \<Longrightarrow>
     \<exists>c m. c \<in> set cs \<and> matchingAppt c ua = Some m \<and> appt_id m = i"
  by (induction cs) (auto simp: cancelled_ids_Nil cancelled_ids_Cons split: option.splits)

lemma cancellation_spares:
  assumes ids: "distinct (map appt_id (appointments s))"
    and a: "a \<in> set (appointments s)"
    and ua: "set ua \<subseteq> set (appointments s)"
    and miss: "\<not> (\<exists>c \<in> set cs. Some (appt_date a) = creq_date c \<and>
                 normalizeTime (appt_time a) = normalizeTime (or_default (creq_time c) []))"
  shows "a \<in> set (appointments (applyCancellations ua cs s))"
proof -
  have "appt_id a \<notin> set (cancelled_ids ua cs)"
  proof
    assume "appt_id a \<in> set (cancelled_ids ua cs)"
    from cancelled_ids_mem [OF this] obtain c m where
      c: "c \<in> set cs" and m: "matchingAppt c ua = Some m" and same: "appt_id m = appt_id a"
      by blast
    from matchingAppt_Some [OF m] ua have "m \<in> set (appointments s)" by blast
    with ids a same have "m = a"
      by (auto simp: distinct_map dest: inj_onD)
    with matchingAppt_Some [OF m] c miss show False by blast
  qed
  then show ?thesis
    using a by (subst applyCancellations_appointments) (force simp: image_iff)
qed

lemma applyCancellations_ids:
  "map appt_id (appointments (applyCancellations ua cs s)) = map appt_id (appointments s)"
  by (subst applyCancellations_appointments) (simp add: comp_def)

lemma applyCancellations_owner:
  "b \<in> set (appointments (applyCancellations ua cs s)) \<Longrightarrow>
     \<exists>a \<in> set (appointments s). appt_userId a = appt_userId b \<and> appt_id a = appt_id b"
  by (subst (asm) applyCancellations_appointments) (auto split: if_splits)


lemma find_map_comp: "List.find P (map f xs) = map_option f (List.find (\<lambda>x. P (f x)) xs)"
  by (induction xs) auto

lemma getUser_id: "getUser s i = Some u \<Longrightarrow> user_id u = i"
  unfolding getUser_def by (auto simp: find_Some_iff)

lemma getUser_keys: "getUser s i \<noteq> None \<longleftrightarrow> i \<in> fst ` set (user_keys s)"
  unfolding getUser_def user_keys_def by (auto simp: find_None_iff image_iff)

lemma sessionUser_id:
  "map_option user_id (sessionUser session s) = linked_id (session_key session) (user_keys s)"
proof (cases "session_key session")
  case None
  then show ?thesis
    by (auto simp: sessionUser_def session_key_def linked_id_def split: option.splits)
next
  case (Some i)
  then obtain c where c: "session = Some c" "cs_userId c = Some i"
    by (auto simp: session_key_def split: option.splits)
  show ?thesis
  proof (cases "getUser s i")
    case None
    with getUser_keys [of s i] show ?thesis
      by (simp add: sessionUser_def c session_key_def linked_id_def)
  next
    case (Some u)
    with getUser_keys [of s i] getUser_id [OF Some] show ?thesis
      by (simp add: sessionUser_def c session_key_def linked_id_def)
  qed
qed

lemma phone_lookup_keys:
  "map_option user_id (getUserByPhoneNumber s p) =
     map_option fst (List.find (\<lambda>k. Some (snd k) = Some p) (user_keys s))"
  by (simp add: getUserByPhoneNumber_def user_keys_def find_map_comp option.map_comp comp_def)

lemma user_keys_updateUser: "user_keys (updateUser i nm s) = user_keys s"
  by (simp add: user_keys_def updateUser_def comp_def if_distrib cong: if_cong)

lemma user_keys_createUser:
  "user_keys (snd (createUser p nm s)) = user_keys s @ [(nextUserId s, p)]"
  "user_id (fst (createUser p nm s)) = nextUserId s"
  by (simp_all add: user_keys_def createUser_def Let_def)

lemma resolveUser_id:
  "map_option user_id (fst (resolveUser user phone nm s)) =
     resolved_id (map_option user_id user) phone (user_keys s) (nextUserId s)"
proof (cases user)
  case (Some u)
  then show ?thesis
    by (simp add: resolveUser_def resolved_id_def split: option.split)
next
  case None
  show ?thesis
  proof (cases "valid_phone phone")
    case False
    then show ?thesis
      by (auto simp: None resolveUser_def resolved_id_def valid_phone_def split: option.splits)
  next
    case True
    then obtain p where p: "phone = Some p" "p \<noteq> []" "10 \<le> length p"
      by (auto simp: valid_phone_def split: option.splits)
    show ?thesis
    proof (cases "getUserByPhoneNumber s p")
      case None': None
      with phone_lookup_keys [of s p]
      have "List.find (\<lambda>k. Some (snd k) = Some p) (user_keys s) = None" by simp
      then show ?thesis
        using None' True
        by (simp add: None p resolveUser_def resolved_id_def createUser_def Let_def)
    next
      case (Some e)
      with phone_lookup_keys [of s p]
      obtain k where k: "List.find (\<lambda>k. Some (snd k) = Some p) (user_keys s) = Some k"
          "fst k = user_id e"
        by (cases "List.find (\<lambda>k. Some (snd k) = Some p) (user_keys s)") auto
      then show ?thesis
        using Some True
        by (simp add: None p resolveUser_def resolved_id_def split: option.split)
    qed
  qed
qed

lemma resolveUser_keys:
  "user_keys (snd (resolveUser user phone nm s)) =
     keys_after (map_option user_id user) phone (user_keys s) (nextUserId s)"
proof (cases user)
  case (Some u)
  then show ?thesis
    by (simp add: resolveUser_def keys_after_def user_keys_updateUser split: option.split)
next
  case None
  show ?thesis
  proof (cases "valid_phone phone")
    case False
    then show ?thesis
      by (auto simp: None resolveUser_def keys_after_def valid_phone_def split: option.splits)
  next
    case True
    then obtain p where p: "phone = Some p" "p \<noteq> []" "10 \<le> length p"
      by (auto simp: valid_phone_def split: option.splits)
    show ?thesis
    proof (cases "getUserByPhoneNumber s p")
      case None': None
      with phone_lookup_keys [of s p]
      have "List.find (\<lambda>k. Some (snd k) = Some p) (user_keys s) = None" by simp
      then show ?thesis
        using None' True
        by (simp add: None p resolveUser_def keys_after_def createUser_def Let_def
            user_keys_def show_str_def)
    next
      case (Some e)
      with phone_lookup_keys [of s p]
      have "List.find (\<lambda>k. Some (snd k) = Some p) (user_keys s) \<noteq> None"
        by (cases "List.find (\<lambda>k. Some (snd k) = Some p) (user_keys s)") simp_all
      then show ?thesis
        using Some True
        by (simp add: None p resolveUser_def keys_after_def user_keys_updateUser
            split: option.split)
    qed
  qed
qed


lemma parsed_run:
  obtains user s1 existingAppts n s2 s3 summ where
    "resolveUser (sessionUser (getCallSession s sid) s) (extractedPhone ex (getCallSession s sid))
       (or_else (ex_userName ex) (userNameOf (sessionUser (getCallSession s sid) s))) s = (user, s1)"
    "(case user of
        None \<Rightarrow> ([], 0, s1)
      | Some u \<Rightarrow> createRequested (user_id u) (ex_appointmentRequests ex)
                    (getAppointmentsByUser s1 (user_id u)) 0 s1) = (existingAppts, n, s2)"
    "s3 = (case user of
             None \<Rightarrow> s2
           | Some u \<Rightarrow> applyCancellations (getAppointmentsByUser s2 (user_id u))
                         (ex_cancellationRequests ex) s2)"
    "snd (generateCallSummary sid tr (Parsed ex) s) =
       endCallSession sid summ (user_views user s3) (ex_userPreferences ex) tr s3"
    "sr_newAppointmentsCreated (fst (generateCallSummary sid tr (Parsed ex) s)) = Some n"
proof -
  let ?session = "getCallSession s sid"
  let ?user0 = "sessionUser ?session s"
  obtain user s1 where r: "resolveUser ?user0
             (or_else (map_option strip_non_digits (ex_phoneNumber ex)) (sessionPhone ?session))
             (or_else (ex_userName ex) (userNameOf ?user0)) s = (user, s1)"
    by force
  obtain existingAppts n s2 where l: "(case user of
            None \<Rightarrow> ([], 0, s1)
          | Some u \<Rightarrow> createRequested (user_id u) (ex_appointmentRequests ex)
                        (getAppointmentsByUser s1 (user_id u)) 0 s1) = (existingAppts, n, s2)"
    using prod_cases3 by blast
  define s3 where "s3 = (case user of
                 None \<Rightarrow> s2
               | Some u \<Rightarrow> applyCancellations (getAppointmentsByUser s2 (user_id u))
                             (ex_cancellationRequests ex) s2)"
  have run: "generateCallSummary sid tr (Parsed ex) s = applyExtraction sid tr ?session ?user0 ex s"
    by (simp add: generateCallSummary_def Let_def)
  show thesis
  proof (rule that [of user s1 existingAppts n s2 s3])
    show "resolveUser ?user0 (extractedPhone ex ?session)
       (or_else (ex_userName ex) (userNameOf ?user0)) s = (user, s1)"
      using r by (simp add: extractedPhone_def)
    show "snd (generateCallSummary sid tr (Parsed ex) s) =
       endCallSession sid
        (or_default (ex_summary ex) ''Call completed.'' @
         (if 0 < n then '' ('' @ show_nat n @ '' appointment(s) created)'' else []))
        (user_views user s3) (ex_userPreferences ex) tr s3"
      unfolding run applyExtraction_steps [OF r l s3_def] by simp
    show "sr_newAppointmentsCreated (fst (generateCallSummary sid tr (Parsed ex) s)) = Some n"
      unfolding run applyExtraction_steps [OF r l s3_def] by simp
  qed (rule l, rule s3_def)
qed

lemma endCallSession_tables:
  "appointments (endCallSession i summ booked prefs tr s) = appointments s"
  "users (endCallSession i summ booked prefs tr s) = users s"
  "nextUserId (endCallSession i summ booked prefs tr s) = nextUserId s"
  "nextAppointmentId (endCallSession i summ booked prefs tr s) = nextAppointmentId s"
  by (simp_all add: endCallSession_def)

lemma endCallSession_link:
  "session_key (getCallSession (endCallSession i summ booked prefs tr s) j) =
     session_key (getCallSession s j)"
  "sessionPhone (getCallSession (endCallSession i summ booked prefs tr s) j) =
     sessionPhone (getCallSession s j)"
proof -
  let ?f = "\<lambda>c. if cs_id c = i
                  then c\<lparr>cs_status := ''ended'', cs_summary := Some summ,
                         cs_bookedAppointments := Some booked,
                         cs_userPreferences := Some prefs,
                         cs_transcript := (case tr of None \<Rightarrow> cs_transcript c
                                           | Some t \<Rightarrow> Some t)\<rparr>
                  else c"
  have "getCallSession (endCallSession i summ booked prefs tr s) j =
          map_option ?f (getCallSession s j)"
    by (simp add: getCallSession_def endCallSession_def find_map_key)
  then show "session_key (getCallSession (endCallSession i summ booked prefs tr s) j) =
     session_key (getCallSession s j)"
    and "sessionPhone (getCallSession (endCallSession i summ booked prefs tr s) j) =
     sessionPhone (getCallSession s j)"
    by (cases "getCallSession s j"; simp add: session_key_def sessionPhone_def)+
qed

lemma user_list_same_appointments:
  "appointments s' = appointments s \<Longrightarrow> getAppointmentsByUser s' uid = getAppointmentsByUser s uid"
  by (simp add: getAppointmentsByUser_def)

lemma keys_same_users: "users s' = users s \<Longrightarrow> user_keys s' = user_keys s"
  by (simp add: user_keys_def)

lemma resolveUser_appt_tables:
  assumes "resolveUser user phone nm s = (user', s1)"
  shows "appointments s1 = appointments s" "nextAppointmentId s1 = nextAppointmentId s"
proof -
  have "appointments (snd (resolveUser user phone nm s)) = appointments s \<and>
        nextAppointmentId (snd (resolveUser user phone nm s)) = nextAppointmentId s"
    by (simp add: resolveUser_def createUser_def updateUser_def Let_def
        split: option.split prod.split)
  with assms show "appointments s1 = appointments s" "nextAppointmentId s1 = nextAppointmentId s"
    by simp_all
qed

text \<open>The facts about one run that the rerun argument needs.\<close>

lemma run_facts:
  fixes s :: store and sid :: nat and ex :: extractedData and tr :: "string option"
  defines "s' \<equiv> snd (generateCallSummary sid tr (Parsed ex) s)"
    and "r \<equiv> fst (generateCallSummary sid tr (Parsed ex) s)"
  shows run_count:
      "\<exists>n. sr_newAppointmentsCreated r = Some n \<and>
           length (appointments s') = length (appointments s) + n"
    and run_keys:
      "user_keys s' =
         keys_after (linked_id (session_key (getCallSession s sid)) (user_keys s))
           (extractedPhone ex (getCallSession s sid)) (user_keys s) (nextUserId s)"
    and run_link:
      "session_key (getCallSession s' sid) = session_key (getCallSession s sid)"
      "sessionPhone (getCallSession s' sid) = sessionPhone (getCallSession s sid)"
    and run_idle:
      "(\<forall>uid. run_user_id sid ex s = Some uid \<longrightarrow>
          (\<forall>q \<in> set (ex_appointmentRequests ex). satisfied (getAppointmentsByUser s uid) q))
       \<Longrightarrow> sr_newAppointmentsCreated r = Some 0 \<and>
           map appt_id (appointments s') = map appt_id (appointments s)"
    and run_satisfies:
      "fresh_ids s \<Longrightarrow> \<not> cancels_a_request ex \<Longrightarrow> run_user_id sid ex s = Some uid \<Longrightarrow>
         \<forall>q \<in> set (ex_appointmentRequests ex). satisfied (getAppointmentsByUser s' uid) q"
proof -
  let ?session = "getCallSession s sid"
  let ?user0 = "sessionUser ?session s"
  let ?reqs = "ex_appointmentRequests ex"
  let ?nm = "or_else (ex_userName ex) (userNameOf ?user0)"
  obtain user s1 existingAppts n s2 s3 summ where
    res: "resolveUser ?user0 (extractedPhone ex ?session)
       (or_else (ex_userName ex) (userNameOf ?user0)) s = (user, s1)"
    and loop: "(case user of
        None \<Rightarrow> ([], 0, s1)
      | Some u \<Rightarrow> createRequested (user_id u) ?reqs
                    (getAppointmentsByUser s1 (user_id u)) 0 s1) = (existingAppts, n, s2)"
    and s3: "s3 = (case user of
             None \<Rightarrow> s2
           | Some u \<Rightarrow> applyCancellations (getAppointmentsByUser s2 (user_id u))
                         (ex_cancellationRequests ex) s2)"
    and fin: "s' = endCallSession sid summ (user_views user s3) (ex_userPreferences ex) tr s3"
    and cnt: "sr_newAppointmentsCreated r = Some n"
    unfolding s'_def r_def by (rule parsed_run [of s sid ex tr]) blast
  have uid: "map_option user_id user = run_user_id sid ex s"
    using resolveUser_id [of ?user0 "extractedPhone ex ?session" ?nm s] res
    by (simp add: run_user_id_def sessionUser_id)
  have keys1: "user_keys s1 = keys_after (linked_id (session_key ?session) (user_keys s))
           (extractedPhone ex ?session) (user_keys s) (nextUserId s)"
    using resolveUser_keys [of ?user0 "extractedPhone ex ?session" ?nm s] res
    by (simp add: sessionUser_id)
  have a1: "appointments s1 = appointments s" and n1: "nextAppointmentId s1 = nextAppointmentId s"
    using resolveUser_appt_tables [OF res] by simp_all
  have c1: "callSessions s1 = callSessions s"
    using res by (rule resolveUser_tables)
  obtain new where new: "s2 = s1\<lparr>appointments := appointments s1 @ new,
                  nextAppointmentId := nextAppointmentId s1 + length new\<rparr>"
      "n = length new"
      "\<forall>u. user = Some u \<longrightarrow> existingAppts = getAppointmentsByUser s1 (user_id u) @ new \<and>
            list_all (\<lambda>a. appt_userId a = user_id u \<and> appt_status a = ''pending'') new"
  proof (cases user)
    case None
    with loop have "s2 = s1" "n = 0" by simp_all
    then show ?thesis using None by (intro that [of "[]"]) simp_all
  next
    case (Some u)
    with loop have "createRequested (user_id u) ?reqs (getAppointmentsByUser s1 (user_id u)) 0 s1 =
        (existingAppts, n, s2)" by simp
    from createRequested_shape [OF this] obtain new where
      "existingAppts = getAppointmentsByUser s1 (user_id u) @ new"
      "s2 = s1\<lparr>appointments := appointments s1 @ new,
                  nextAppointmentId := nextAppointmentId s1 + length new\<rparr>"
      "n = 0 + length new"
      "list_all (\<lambda>a. appt_userId a = user_id u \<and> appt_status a = ''pending'') new"
      by blast
    then show ?thesis using Some by (intro that [of new]) simp_all
  qed
  have s3': "s3 = s2\<lparr>appointments := map (\<lambda>a. if appt_id a \<in> set (case user of None \<Rightarrow> []
                 | Some u \<Rightarrow> cancelled_ids (getAppointmentsByUser s2 (user_id u))
                               (ex_cancellationRequests ex))
               then a\<lparr>appt_status := ''cancelled''\<rparr> else a) (appointments s2)\<rparr>"
    unfolding s3 by (cases user) (simp_all add: applyCancellations_appointments [symmetric])
  have ids3: "map appt_id (appointments s3) = map appt_id (appointments s2)"
    by (subst s3') (simp add: comp_def)
  have a': "appointments s' = appointments s3"
    by (simp add: fin endCallSession_tables)
  have users': "users s' = users s1"
    by (simp add: fin endCallSession_tables s3' new(1))
  have sess3: "callSessions s3 = callSessions s"
    by (simp add: s3' new(1) c1)
  have link3: "getCallSession s3 sid = getCallSession s sid"
    by (simp add: getCallSession_def sess3)
  show "\<exists>n. sr_newAppointmentsCreated r = Some n \<and>
           length (appointments s') = length (appointments s) + n"
  proof (intro exI [of _ n] conjI cnt)
    have "length (appointments s') = length (map appt_id (appointments s3))"
      by (simp add: a')
    also have "\<dots> = length (appointments s2)" by (simp add: ids3)
    also have "\<dots> = length (appointments s) + n" by (simp add: new a1)
    finally show "length (appointments s') = length (appointments s) + n" .
  qed
  show "user_keys s' =
         keys_after (linked_id (session_key ?session) (user_keys s))
           (extractedPhone ex ?session) (user_keys s) (nextUserId s)"
    using keys1 keys_same_users [OF users'] by simp
  show "session_key (getCallSession s' sid) = session_key ?session"
    and "sessionPhone (getCallSession s' sid) = sessionPhone ?session"
    by (simp_all add: fin endCallSession_link link3)
  show "sr_newAppointmentsCreated r = Some 0 \<and>
           map appt_id (appointments s') = map appt_id (appointments s)"
    if idle: "\<forall>uid. run_user_id sid ex s = Some uid \<longrightarrow>
          (\<forall>q \<in> set ?reqs. satisfied (getAppointmentsByUser s uid) q)"
  proof -
    have "n = 0 \<and> s2 = s1"
    proof (cases user)
      case None
      with loop show ?thesis by simp
    next
      case (Some u)
      with uid idle have "\<forall>q \<in> set ?reqs. satisfied (getAppointmentsByUser s (user_id u)) q"
        by auto
      then have "\<forall>q \<in> set ?reqs. satisfied (getAppointmentsByUser s1 (user_id u)) q"
        by (simp add: user_list_same_appointments [OF a1])
      from createRequested_noop [OF this] loop Some show ?thesis by simp
    qed
    then show ?thesis
      by (simp add: cnt a' ids3 a1)
  qed
  show "\<forall>q \<in> set ?reqs. satisfied (getAppointmentsByUser s' uid) q"
    if fresh: "fresh_ids s" and miss: "\<not> cancels_a_request ex"
      and who: "run_user_id sid ex s = Some uid"
  proof
    fix q assume q: "q \<in> set ?reqs"
    from who uid obtain u where u: "user = Some u" "user_id u = uid" by auto
    with loop have run: "createRequested uid ?reqs (getAppointmentsByUser s1 uid) 0 s1 =
        (existingAppts, n, s2)" by simp
    have fresh2: "fresh_ids s2"
      using createRequested_fresh_ids [OF run] fresh by (simp add: fresh_ids_def a1 n1)
    from new(3) u have ex_new: "existingAppts = getAppointmentsByUser s1 uid @ new"
      and mine: "list_all (\<lambda>a. appt_userId a = uid \<and> appt_status a = ''pending'') new"
      by simp_all
    have set2: "set (getAppointmentsByUser s2 uid) = set existingAppts"
      using mine by (auto simp: ex_new new(1) getAppointmentsByUser_def list_all_iff)
    show "satisfied (getAppointmentsByUser s' uid) q"
      unfolding satisfied_def
    proof
      assume present: "request_present q"
      with createRequested_satisfies [OF run] q
      have "isDuplicate (show_str (req_date q)) (show_str (req_time q)) existingAppts"
        by (auto simp: satisfied_def)
      then obtain a where a: "a \<in> set (getAppointmentsByUser s2 uid)"
          "appt_date a = show_str (req_date q)"
          "normalizeTime (appt_time a) = normalizeTime (show_str (req_time q))"
          "appt_status a \<noteq> ''cancelled''"
        unfolding isDuplicate_set set2 by blast
      have in2: "a \<in> set (appointments s2)" and owner: "appt_userId a = uid"
        using a(1) by (auto simp: getAppointmentsByUser_def)
      have nohit: "\<not> (\<exists>c \<in> set (ex_cancellationRequests ex). Some (appt_date a) = creq_date c \<and>
                 normalizeTime (appt_time a) = normalizeTime (or_default (creq_time c) []))"
      proof
        assume "\<exists>c \<in> set (ex_cancellationRequests ex). Some (appt_date a) = creq_date c \<and>
                 normalizeTime (appt_time a) = normalizeTime (or_default (creq_time c) [])"
        then obtain c where c: "c \<in> set (ex_cancellationRequests ex)"
            "Some (appt_date a) = creq_date c"
            "normalizeTime (appt_time a) = normalizeTime (or_default (creq_time c) [])"
          by blast
        from present have "req_date q = Some (show_str (req_date q))"
          by (auto simp: request_present_def truthy_def show_str_def split: option.splits)
        with c a present have "cancellation_hits c q"
          by (simp add: cancellation_hits_def)
        with c(1) q miss show False
          by (auto simp: cancels_a_request_def list_ex_iff)
      qed
      have "a \<in> set (appointments (applyCancellations (getAppointmentsByUser s2 uid)
                (ex_cancellationRequests ex) s2))"
        using fresh2 in2 nohit
        by (intro cancellation_spares) (auto simp: fresh_ids_def getAppointmentsByUser_def)
      then have "a \<in> set (appointments s')"
        by (simp add: a' s3 u)
      then have "a \<in> set (getAppointmentsByUser s' uid)"
        using owner by (simp add: getAppointmentsByUser_def)
      with a show "isDuplicate (show_str (req_date q)) (show_str (req_time q))
          (getAppointmentsByUser s' uid)"
        unfolding isDuplicate_set by blast
    qed
  qed
qed






subsection \<open>Names\<close>

text \<open>
  The places that guard the write: \<open>identify_user\<close> of the provider's endpoint and the
  summarizer never change a name that is set (in a store with distinct user ids), and
  \<open>identify_user\<close> of the tool executor writes no name of an existing user at all. A
  name that is absent is set when one is supplied.
\<close>

lemma updateUser_spares:
  assumes "distinct (map user_id (users s))" "e \<in> set (users s)" "u \<in> set (users s)" "u \<noteq> e"
  shows "u \<in> set (users (updateUser (user_id e) nm s))"
proof -
  from assms have "user_id u \<noteq> user_id e"
    by (auto simp: distinct_map dest: inj_onD)
  with assms(3) show ?thesis
    by (force simp: updateUser_def image_iff)
qed

lemma phone_lookup_mem: "getUserByPhoneNumber s p = Some e \<Longrightarrow> e \<in> set (users s)"
  unfolding getUserByPhoneNumber_def by (auto simp: find_Some_iff)

lemma getUser_mem: "getUser s i = Some e \<Longrightarrow> e \<in> set (users s)"
  unfolding getUser_def by (auto simp: find_Some_iff)

lemma resolveUser_keeps_names:
  assumes ids: "distinct (map user_id (users s))"
    and linked: "\<forall>u0. user = Some u0 \<longrightarrow> u0 \<in> set (users s)"
    and u: "u \<in> set (users s)" "truthy (user_name u)"
  shows "u \<in> set (users (snd (resolveUser user phone nm s)))"
proof (cases user)
  case (Some u0)
  with linked have mem: "u0 \<in> set (users s)" by simp
  show ?thesis
  proof (cases "\<exists>n. nm = Some n \<and> n \<noteq> [] \<and> \<not> truthy (user_name u0)")
    case True
    then obtain n where n: "nm = Some n" "n \<noteq> []" "\<not> truthy (user_name u0)" by blast
    with u have "u \<noteq> u0" by auto
    from updateUser_spares [OF ids mem u(1) this] n show ?thesis
      by (simp add: Some resolveUser_def)
  next
    case False
    with u(1) show ?thesis
      by (auto simp: Some resolveUser_def split: option.splits)
  qed
next
  case None
  show ?thesis
  proof (cases "valid_phone phone")
    case False
    with u(1) show ?thesis
      by (auto simp: None resolveUser_def valid_phone_def split: option.splits)
  next
    case True
    then obtain p where p: "phone = Some p" "p \<noteq> []" "10 \<le> length p"
      by (auto simp: valid_phone_def split: option.splits)
    show ?thesis
    proof (cases "getUserByPhoneNumber s p")
      case None': None
      with u(1) show ?thesis
        by (simp add: None p resolveUser_def createUser_def Let_def)
    next
      case (Some e)
      show ?thesis
      proof (cases "\<exists>n. nm = Some n \<and> n \<noteq> [] \<and> \<not> truthy (user_name e)")
        case True
        then obtain n where n: "nm = Some n" "n \<noteq> []" "\<not> truthy (user_name e)" by blast
        with u have "u \<noteq> e" by auto
        from updateUser_spares [OF ids phone_lookup_mem [OF Some] u(1) this] n show ?thesis
          by (simp add: None p Some resolveUser_def)
      next
        case False
        with u(1) show ?thesis
          by (auto simp: None p Some resolveUser_def split: option.splits)
      qed
    qed
  qed
qed

lemma summarizer_keeps_names:
  assumes "distinct (map user_id (users s))" "u \<in> set (users s)" "truthy (user_name u)"
  shows "u \<in> set (users (snd (generateCallSummary sid tr response s)))"
proof (cases response)
  case LlmError
  with assms(2) show ?thesis
    by (simp add: generateCallSummary_def Let_def fallback_tables)
next
  case Unparsable
  let ?session = "getCallSession s sid"
  obtain user s1 where r: "resolveUser (sessionUser ?session s) (sessionPhone ?session)
      (userNameOf (sessionUser ?session s)) s = (user, s1)"
    by force
  have "\<forall>u0. sessionUser ?session s = Some u0 \<longrightarrow> u0 \<in> set (users s)"
    by (auto simp: sessionUser_def split: option.splits if_splits dest: getUser_mem)
  from resolveUser_keeps_names [OF assms(1) this assms(2,3), of "sessionPhone ?session"
      "userNameOf (sessionUser ?session s)"] r
  have "u \<in> set (users s1)" by simp
  then show ?thesis
    by (simp add: Unparsable generateCallSummary_def Let_def unparsable_run [OF r]
        endCallSession_tables)
next
  case (Parsed ex)
  let ?session = "getCallSession s sid"
  let ?user0 = "sessionUser ?session s"
  obtain user s1 existingAppts n s2 s3 summ where
    res: "resolveUser ?user0 (extractedPhone ex ?session)
       (or_else (ex_userName ex) (userNameOf ?user0)) s = (user, s1)"
    and loop: "(case user of
        None \<Rightarrow> ([], 0, s1)
      | Some u \<Rightarrow> createRequested (user_id u) (ex_appointmentRequests ex)
                    (getAppointmentsByUser s1 (user_id u)) 0 s1) = (existingAppts, n, s2)"
    and s3: "s3 = (case user of
             None \<Rightarrow> s2
           | Some u \<Rightarrow> applyCancellations (getAppointmentsByUser s2 (user_id u))
                         (ex_cancellationRequests ex) s2)"
    and fin: "snd (generateCallSummary sid tr (Parsed ex) s) =
        endCallSession sid summ (user_views user s3) (ex_userPreferences ex) tr s3"
    by (rule parsed_run [of s sid ex tr]) blast
  have "\<forall>u0. ?user0 = Some u0 \<longrightarrow> u0 \<in> set (users s)"
    by (auto simp: sessionUser_def split: option.splits if_splits dest: getUser_mem)
  from resolveUser_keeps_names [OF assms(1) this assms(2,3), of "extractedPhone ex ?session"
      "or_else (ex_userName ex) (userNameOf ?user0)"] res
  have "u \<in> set (users s1)" by simp
  moreover have "users s2 = users s1"
  proof (cases user)
    case None
    with loop show ?thesis by simp
  next
    case (Some w)
    with loop have "createRequested (user_id w) (ex_appointmentRequests ex)
        (getAppointmentsByUser s1 (user_id w)) 0 s1 = (existingAppts, n, s2)" by simp
    from createRequested_shape [OF this] show ?thesis by auto
  qed
  moreover have "users s3 = users s2"
    unfolding s3 by (cases user) (simp_all, subst applyCancellations_appointments, simp)
  ultimately show ?thesis
    by (simp add: Parsed fin endCallSession_tables)
qed

lemma toolExecute_identify_user_keeps_names:
  assumes ids: "distinct (map user_id (users s))"
    and u: "u \<in> set (users s)" "truthy (user_name u)"
  shows "u \<in> set (users (snd (snd (toolExecute_identify_user args ctx s))))"
proof -
  let ?digits = "strip_non_digits (or_default (barg_phone_number args) [])"
  let ?name = "or_default (barg_name args) []"
  show ?thesis
  proof (cases "?digits = []")
    case True
    with u(1) show ?thesis by (simp add: toolExecute_identify_user_def Let_def)
  next
    case digits: False
    show ?thesis
    proof (cases "getUserByPhoneNumber s ?digits")
      case None
      with digits u(1) show ?thesis
        by (simp add: toolExecute_identify_user_def Let_def createUser_def)
    next
      case (Some e)
      show ?thesis
      proof (cases "?name \<noteq> [] \<and> \<not> truthy (user_name e)")
        case True
        with u have "u \<noteq> e" by auto
        from updateUser_spares [OF ids phone_lookup_mem [OF Some] u(1) this] True digits Some
        show ?thesis
          by (simp add: toolExecute_identify_user_def Let_def)
      next
        case False
        with digits Some u(1) show ?thesis
          by (auto simp: toolExecute_identify_user_def Let_def)
      qed
    qed
  qed
qed

lemma tool_identify_user_keeps_users:
  "u \<in> set (users s) \<Longrightarrow> u \<in> set (users (snd (tool_identify_user args ctx s)))"
  by (auto simp: tool_identify_user_def Let_def returns_def createUser_def updateCallSession_def
      split: option.splits prod.splits)

lemma getUser_after_update:
  "getUser (updateUser i nm s) j =
     map_option (\<lambda>u. if user_id u = i then u\<lparr>user_name := Some nm\<rparr> else u) (getUser s j)"
  by (simp add: getUser_def updateUser_def find_map_key)

lemma resolveUser_fills_absent_name:
  assumes "getUser s (user_id u0) = Some u0" "\<not> truthy (user_name u0)" "n \<noteq> []"
  shows "getUser (snd (resolveUser (Some u0) phone (Some n) s)) (user_id u0) =
           Some (u0\<lparr>user_name := Some n\<rparr>)"
  using assms by (simp add: resolveUser_def getUser_after_update)

lemma set_user_name_sets:
  assumes "bey_userId ctx = Some uid" "uid \<noteq> 0" "barg_name args = Some n" "n \<noteq> []"
    "getUser s uid = Some u"
  shows "getUser (snd (snd (toolExecute_set_user_name args ctx s))) uid =
           Some (u\<lparr>user_name := Some n\<rparr>)"
  using assms getUser_id [OF assms(5)]
  by (simp add: toolExecute_set_user_name_def Let_def or_default_def getUser_after_update)

text \<open>
  C5. \<open>set_user_name\<close> overwrites a name that is already set: Alice is identified in
  the call, her name is \<open>Alice\<close>, and a \<open>set_user_name\<close> call with the name \<open>Mallory\<close>
  stores \<open>Mallory\<close>. The case calls \<open>updateUser\<close> without looking at the current name,
  which \<open>identify_user\<close> beside it and the summarizer's user resolution both do.
\<close>

theorem set_user_name_overwrites:
  "getUser two_users 1 = Some alice
   \<and> user_name alice = Some ''Alice''
   \<and> toolExecute_set_user_name (name_args ''Mallory'') alice_bey two_users =
       (''Thank you, Mallory! Your name has been saved. Would you like to book an appointment?'',
        alice_bey\<lparr>bey_userName := Some ''Mallory''\<rparr>,
        two_users\<lparr>users := [alice\<lparr>user_name := Some ''Mallory''\<rparr>, bob]\<rparr>)
   \<and> getUser (snd (snd (toolExecute_set_user_name (name_args ''Mallory'') alice_bey two_users))) 1 =
       Some (alice\<lparr>user_name := Some ''Mallory''\<rparr>)"
  by code_simp

end
